theory Spec2Isabelle
  imports Main
begin

section \<open>Domain model\<close>

text \<open>
  The classes \<open>Resource\<close>, \<open>Task\<close> and \<open>WorkUnit\<close> are used by
  \<open>numberjack_scheduler.py\<close> but declared elsewhere. The scheduler reads
  \<open>resource.capacity\<close>, \<open>task.duration\<close>, \<open>task.resources\<close>, \<open>work_unit.tasks\<close>,
  \<open>work_unit.constraints\<close>, \<open>work_unit.parents\<close>, \<open>work_unit.due_time\<close>,
  \<open>work_unit.priority\<close>, \<open>work_unit.scheduled_start\<close> and writes \<open>task.scheduled\<close>.
\<close>

text \<open>Modelled from the spec: the Resource entity (identity and capacity); the class
  declaration is not part of the scheduler module.\<close>

record resource =
  rname :: string
  capacity :: int

text \<open>Modelled from the spec: the Task entity (identity, duration, required resources);
  the class declaration is not part of the scheduler module. The Python objects are dict
  keys by identity; \<open>tname\<close> stands for that identity. The only mutable field,
  \<open>scheduled\<close>, lives in a separate store so that a task stays usable as a key.\<close>

record task =
  tname :: string
  duration :: int
  resources :: "resource list"

text \<open>The value written to \<open>task.scheduled\<close>: \<open>(start, end, {resource: slot})\<close>.\<close>

type_synonym scheduled = "int \<times> int \<times> (resource \<times> int) list"

type_synonym store = "task \<rightharpoonup> scheduled"

section \<open>The constraint library as the scheduler uses it\<close>

text \<open>
  Every library object has an identity. The scheduler creates one \<open>nj.Task\<close> per key of
  \<open>nj_tasks\<close>, one \<open>nj.Variable\<close> per (task, resource) entry of \<open>nj_taskresources\<close>,
  the constant \<open>ZERO\<close> and the surrogate \<open>C_max\<close>; the tag records which one it is.
\<close>

datatype var_tag = ZERO_tag | Start task | Slot task resource | C_max_tag

text \<open>The three constructor calls of the source: \<open>nj.Variable(lb, ub)\<close>,
  \<open>nj.Variable([v, ...])\<close> and \<open>nj.Task(ub, duration)\<close>.\<close>

datatype nj_variable =
    Variable var_tag int int
  | VariableList var_tag "int list"
  | Task var_tag int int

text \<open>The attribute \<open>.duration\<close>, which only \<open>nj.Task\<close> objects have.\<close>

fun nj_duration :: "nj_variable \<Rightarrow> int" where
  "nj_duration (Task k ub d) = d"

datatype nj_expr =
    Var nj_variable
  | Const int
  | Add nj_expr nj_expr
  | Sub nj_expr nj_expr
  | Mul nj_expr nj_expr
  | Max "nj_expr list"

datatype nj_constr =
    Le nj_expr nj_expr
  | Lt nj_expr nj_expr
  | Gt nj_expr nj_expr
  | Eq nj_expr nj_expr
  | Or nj_constr nj_constr
  | AllDiff "nj_expr list"
  | UnaryResource "nj_variable list"
  | Minimize nj_expr

text \<open>Modelled from the spec: the WorkUnit entity; the class declaration is not part of
  the scheduler module. A custom constraint is a function from the work unit's ordered
  task variables to a constraint.\<close>

datatype work_unit = WorkUnit
  (name: string)
  (tasks: "task list")
  (constraints: "(nj_variable list \<Rightarrow> nj_constr) list")
  (parents: "work_unit list")
  (due_time: "int option")
  (priority: int)
  (scheduled_start: "int option")

subsection \<open>What an assignment is and when it satisfies a model\<close>

type_synonym assignment = "nj_variable \<Rightarrow> int"

text \<open>Modelled from the spec: the domains of the engine's bounded-integer decision
  variables; the constraint library is an external package and its constructors are not
  part of the sources. In the spec's words (section 4.1) a slot decision has domain
  \<open>[1, resource.capacity]\<close>, so \<open>Variable(lb, ub)\<close> ranges over \<open>lb..ub\<close>; a
  start-time decision has domain \<open>[0, upper_bound)\<close> and is tagged with its duration, so
  the start of \<open>Task(ub, dur)\<close> ranges over \<open>0..<ub\<close>; \<open>Variable([..])\<close> ranges over
  the listed values.\<close>

fun in_domain :: "nj_variable \<Rightarrow> int \<Rightarrow> bool" where
  "in_domain (Variable k lb ub) x = (lb \<le> x \<and> x \<le> ub)"
| "in_domain (VariableList k vs) x = (x \<in> set vs)"
| "in_domain (Task k ub d) x = (0 \<le> x \<and> x < ub)"

text \<open>Modelled from the spec: the engine's arithmetic over variables and constants, and
  its bounded-maximum expression.\<close>

fun eval :: "assignment \<Rightarrow> nj_expr \<Rightarrow> int" where
  "eval a (Var v) = a v"
| "eval a (Const c) = c"
| "eval a (Add x y) = eval a x + eval a y"
| "eval a (Sub x y) = eval a x - eval a y"
| "eval a (Mul x y) = eval a x * eval a y"
| "eval a (Max es) = (case map (eval a) es of [] \<Rightarrow> 0 | v # vs \<Rightarrow> foldl max v vs)"

text \<open>Two interval-like tasks do not overlap when one ends before the other starts.\<close>

definition no_overlap :: "assignment \<Rightarrow> nj_variable \<Rightarrow> nj_variable \<Rightarrow> bool" where
  "no_overlap a v w = (a v + nj_duration v \<le> a w \<or> a w + nj_duration w \<le> a v)"

fun pairwise_no_overlap :: "assignment \<Rightarrow> nj_variable list \<Rightarrow> bool" where
  "pairwise_no_overlap a [] = True"
| "pairwise_no_overlap a (v # vs) = ((\<forall>w \<in> set vs. no_overlap a v w) \<and> pairwise_no_overlap a vs)"

text \<open>Modelled from the spec: the engine's comparisons, disjunction, all-different, the
  global mutual-exclusion constraint over interval-like tasks, and the objective
  directive (which restricts no assignment).\<close>

fun holds :: "assignment \<Rightarrow> nj_constr \<Rightarrow> bool" where
  "holds a (Le x y) = (eval a x \<le> eval a y)"
| "holds a (Lt x y) = (eval a x < eval a y)"
| "holds a (Gt x y) = (eval a x > eval a y)"
| "holds a (Eq x y) = (eval a x = eval a y)"
| "holds a (Or c d) = (holds a c \<or> holds a d)"
| "holds a (AllDiff es) = distinct (map (eval a) es)"
| "holds a (UnaryResource vs) = pairwise_no_overlap a vs"
| "holds a (Minimize e) = True"

text \<open>The variables an expression or a constraint mentions.\<close>

fun vars_of_expr :: "nj_expr \<Rightarrow> nj_variable set" where
  "vars_of_expr (Var v) = {v}"
| "vars_of_expr (Const c) = {}"
| "vars_of_expr (Add x y) = vars_of_expr x \<union> vars_of_expr y"
| "vars_of_expr (Sub x y) = vars_of_expr x \<union> vars_of_expr y"
| "vars_of_expr (Mul x y) = vars_of_expr x \<union> vars_of_expr y"
| "vars_of_expr (Max es) = (\<Union>e \<in> set es. vars_of_expr e)"

fun vars_of :: "nj_constr \<Rightarrow> nj_variable set" where
  "vars_of (Le x y) = vars_of_expr x \<union> vars_of_expr y"
| "vars_of (Lt x y) = vars_of_expr x \<union> vars_of_expr y"
| "vars_of (Gt x y) = vars_of_expr x \<union> vars_of_expr y"
| "vars_of (Eq x y) = vars_of_expr x \<union> vars_of_expr y"
| "vars_of (Or c d) = vars_of c \<union> vars_of d"
| "vars_of (AllDiff es) = (\<Union>e \<in> set es. vars_of_expr e)"
| "vars_of (UnaryResource vs) = set vs"
| "vars_of (Minimize e) = vars_of_expr e"

text \<open>An assignment satisfies a model when every constraint added to it holds and every
  variable the model mentions takes a value of its domain.\<close>

definition satisfies :: "assignment \<Rightarrow> nj_constr list \<Rightarrow> bool" where
  "satisfies a model =
     ((\<forall>c \<in> set model. holds a c) \<and> (\<forall>c \<in> set model. \<forall>v \<in> vars_of c. in_domain v (a v)))"

definition feasible :: "nj_constr list \<Rightarrow> bool" where
  "feasible model = (\<exists>a. satisfies a model)"

section \<open>Python helpers\<close>

datatype error = IndexError | KeyError | ValueError string | BackendError

text \<open>\<open>xs[0]\<close>, \<open>xs[-1]\<close> and \<open>d[k]\<close>, each with its exception.\<close>

definition getitem_first :: "'a list \<Rightarrow> error + 'a" where
  "getitem_first xs = (case xs of [] \<Rightarrow> Inl IndexError | x # _ \<Rightarrow> Inr x)"

definition getitem_last :: "'a list \<Rightarrow> error + 'a" where
  "getitem_last xs = (if xs = [] then Inl IndexError else Inr (last xs))"

definition getitem :: "('k \<rightharpoonup> 'v) \<Rightarrow> 'k \<Rightarrow> error + 'v" where
  "getitem d k = (case d k of None \<Rightarrow> Inl KeyError | Some v \<Rightarrow> Inr v)"

fun err_bind :: "error + 'a \<Rightarrow> ('a \<Rightarrow> error + 'b) \<Rightarrow> error + 'b" where
  "err_bind (Inl e) f = Inl e"
| "err_bind (Inr x) f = f x"

text \<open>A list comprehension whose element expression may raise: the first exception
  aborts the whole comprehension.\<close>

fun traverse :: "('a \<Rightarrow> error + 'b) \<Rightarrow> 'a list \<Rightarrow> error + 'b list" where
  "traverse f [] = Inr []"
| "traverse f (x # xs) =
     err_bind (f x) (\<lambda>y. err_bind (traverse f xs) (\<lambda>ys. Inr (y # ys)))"

text \<open>\<open>itertools.combinations(xs, 2)\<close>: the pairs of positions \<open>i < j\<close>, in
  lexicographic order.\<close>

fun combinations2 :: "'a list \<Rightarrow> ('a \<times> 'a) list" where
  "combinations2 [] = []"
| "combinations2 (x # xs) = map (Pair x) xs @ combinations2 xs"

text \<open>The builtin \<open>sum\<close> over library expressions: \<open>0 + e1 + e2 + ...\<close>.\<close>

definition py_sum :: "nj_expr list \<Rightarrow> nj_expr" where
  "py_sum es = foldl Add (Const 0) es"

section \<open>The scheduler\<close>

text \<open>\<open>ZERO = nj.Variable([0])\<close> and \<open>lower_bound = 0\<close>.\<close>

definition ZERO :: nj_variable where
  "ZERO = VariableList ZERO_tag [0]"

definition lower_bound :: int where
  "lower_bound = 0"

text \<open>\<open>all_tasks\<close>: the task lists of the work units, flattened in order.\<close>

definition all_tasks_of :: "work_unit list \<Rightarrow> task list" where
  "all_tasks_of work_units = concat (map tasks work_units)"

text \<open>The dict comprehensions: a later occurrence of a key overwrites an earlier one.\<close>

definition nj_tasks :: "int \<Rightarrow> task list \<Rightarrow> (task \<rightharpoonup> nj_variable)" where
  "nj_tasks upper_bound all_tasks =
     foldl (\<lambda>d task. d(task \<mapsto> Task (Start task) upper_bound (duration task)))
       Map.empty all_tasks"

definition nj_taskresources :: "task list \<Rightarrow> (task \<rightharpoonup> (resource \<rightharpoonup> nj_variable))" where
  "nj_taskresources all_tasks =
     foldl (\<lambda>d task. d(task \<mapsto>
         foldl (\<lambda>e resource. e(resource \<mapsto> Variable (Slot task resource) 1 (capacity resource)))
           Map.empty (resources task)))
       Map.empty all_tasks"

text \<open>\<open>list(set([...]))\<close>: every resource once; the order Python iterates a set in is
  not specified, the order of first occurrence stands for it.\<close>

definition all_resources_of :: "task list \<Rightarrow> resource list" where
  "all_resources_of all_tasks = remdups (concat (map resources all_tasks))"

text \<open>\<open>resource in task.resources\<close>.\<close>

definition requires :: "resource \<Rightarrow> task \<Rightarrow> bool" where
  "requires resource task = (resource \<in> set (resources task))"

text \<open>The disjunction added for one pair of tasks sharing a pooled resource.\<close>

definition slot_disjunction ::
  "(task \<rightharpoonup> nj_variable) \<Rightarrow> (task \<rightharpoonup> (resource \<rightharpoonup> nj_variable)) \<Rightarrow> resource \<Rightarrow>
     task \<times> task \<Rightarrow> error + nj_constr" where
  "slot_disjunction d dr resource p =
     (case p of (task, other_task) \<Rightarrow>
        err_bind (getitem d task) (\<lambda>v.
        err_bind (getitem d other_task) (\<lambda>w.
        err_bind (getitem dr task) (\<lambda>rs.
        err_bind (getitem rs resource) (\<lambda>s.
        err_bind (getitem dr other_task) (\<lambda>rs'.
        err_bind (getitem rs' resource) (\<lambda>s'.
          Inr (Or (Or (Le (Add (Var v) (Const (nj_duration v))) (Var w))
                      (Le (Add (Var w) (Const (nj_duration w))) (Var v)))
                  (AllDiff [Var s, Var s'])))))))))"

text \<open>The pairs of \<open>itertools.combinations(all_tasks, 2)\<close> in which both tasks require
  the resource.\<close>

definition tasks_pairs_sharing_resource :: "task list \<Rightarrow> resource \<Rightarrow> (task \<times> task) list" where
  "tasks_pairs_sharing_resource all_tasks resource =
     filter (\<lambda>(task, other_task). requires resource task \<and> requires resource other_task)
       (combinations2 all_tasks)"

text \<open>The body of \<open>for resource in all_resources\<close>: what one resource adds.\<close>

definition resource_constraints ::
  "(task \<rightharpoonup> nj_variable) \<Rightarrow> (task \<rightharpoonup> (resource \<rightharpoonup> nj_variable)) \<Rightarrow> task list \<Rightarrow>
     resource \<Rightarrow> error + nj_constr list" where
  "resource_constraints d dr all_tasks resource =
     (if capacity resource = 1
      then err_bind (traverse (getitem d) (filter (requires resource) all_tasks))
             (\<lambda>vs. Inr [UnaryResource vs])
      else traverse (slot_disjunction d dr resource)
             (tasks_pairs_sharing_resource all_tasks resource))"

text \<open>The tasks in one work unit are executed after one another.\<close>

definition chain_constraints ::
  "(task \<rightharpoonup> nj_variable) \<Rightarrow> work_unit list \<Rightarrow> error + nj_constr list" where
  "chain_constraints d work_units =
     traverse (\<lambda>(task, next_task).
         err_bind (getitem d task) (\<lambda>v.
         err_bind (getitem d next_task) (\<lambda>w.
           Inr (Le (Add (Var v) (Const (duration task))) (Var w)))))
       (concat (map (\<lambda>work_unit. zip (tasks work_unit) (tl (tasks work_unit))) work_units))"

text \<open>Additional constraints inside each work unit.\<close>

definition custom_constraints ::
  "(task \<rightharpoonup> nj_variable) \<Rightarrow> work_unit list \<Rightarrow> error + nj_constr list" where
  "custom_constraints d work_units =
     traverse (\<lambda>(work_unit, constraint).
         err_bind (traverse (getitem d) (tasks work_unit)) (\<lambda>vs. Inr (constraint vs)))
       (concat (map (\<lambda>work_unit. map (Pair work_unit) (constraints work_unit)) work_units))"

text \<open>Precedence between inter-dependent work units.\<close>

definition dependency_constraints ::
  "(task \<rightharpoonup> nj_variable) \<Rightarrow> work_unit list \<Rightarrow> error + nj_constr list" where
  "dependency_constraints d work_units =
     traverse (\<lambda>(work_unit, parent_work_unit).
         err_bind (getitem_last (tasks parent_work_unit)) (\<lambda>last_task.
         err_bind (getitem d last_task) (\<lambda>v.
         err_bind (getitem_first (tasks work_unit)) (\<lambda>first_task.
         err_bind (getitem d first_task) (\<lambda>w.
           Inr (Le (Add (Var v) (Const (duration last_task))) (Var w)))))))
       (concat (map (\<lambda>work_unit. map (Pair work_unit) (parents work_unit)) work_units))"

text \<open>The work units that pass \<open>if work_unit.scheduled_start is not None\<close>, each with
  the value, and the same for \<open>due_time\<close>.\<close>

definition with_scheduled_start :: "work_unit list \<Rightarrow> (work_unit \<times> int) list" where
  "with_scheduled_start work_units =
     concat (map (\<lambda>work_unit. case scheduled_start work_unit of
                     None \<Rightarrow> [] | Some s \<Rightarrow> [(work_unit, s)]) work_units)"

definition with_due_time :: "work_unit list \<Rightarrow> (work_unit \<times> int) list" where
  "with_due_time work_units =
     concat (map (\<lambda>work_unit. case due_time work_unit of
                     None \<Rightarrow> [] | Some t \<Rightarrow> [(work_unit, t)]) work_units)"

definition pin_constraints ::
  "(task \<rightharpoonup> nj_variable) \<Rightarrow> work_unit list \<Rightarrow> error + nj_constr list" where
  "pin_constraints d work_units =
     traverse (\<lambda>(work_unit, s).
         err_bind (getitem_first (tasks work_unit)) (\<lambda>first_task.
         err_bind (getitem d first_task) (\<lambda>v.
           Inr (Eq (Var v) (Const s)))))
       (with_scheduled_start work_units)"

text \<open>\<open>nj_tasks[work_unit.tasks[-1]] + work_unit.tasks[-1].duration\<close>.\<close>

definition completion :: "(task \<rightharpoonup> nj_variable) \<Rightarrow> work_unit \<Rightarrow> error + nj_expr" where
  "completion d work_unit =
     err_bind (getitem_last (tasks work_unit)) (\<lambda>last_task.
     err_bind (getitem d last_task) (\<lambda>v.
       Inr (Add (Var v) (Const (duration last_task)))))"

text \<open>\<open>C_max = nj.Variable(lower_bound, 1500000, 'C_max')\<close>.\<close>

definition C_max :: nj_variable where
  "C_max = Variable C_max_tag lower_bound 1500000"

text \<open>The branch \<open>if optimize\<close>: the surrogate exceeds the weighted delays plus the
  completion times, and is minimised.\<close>

definition optimize_constraints ::
  "(task \<rightharpoonup> nj_variable) \<Rightarrow> work_unit list \<Rightarrow> error + nj_constr list" where
  "optimize_constraints d work_units =
     err_bind (traverse (\<lambda>(work_unit, due).
                  err_bind (completion d work_unit) (\<lambda>c.
                    Inr (Mul (Max [Var ZERO, Sub c (Const due)])
                             (Const (1000 * priority work_unit)))))
                (with_due_time work_units)) (\<lambda>delays.
     err_bind (traverse (completion d) work_units) (\<lambda>ends.
       Inr [Gt (Var C_max) (Add (py_sum delays) (py_sum ends)), Minimize (Var C_max)]))"

text \<open>The branch \<open>else\<close>: every due-dated work unit completes before its due time.\<close>

definition deadline_constraints ::
  "(task \<rightharpoonup> nj_variable) \<Rightarrow> work_unit list \<Rightarrow> error + nj_constr list" where
  "deadline_constraints d work_units =
     traverse (\<lambda>(work_unit, due).
         err_bind (completion d work_unit) (\<lambda>c. Inr (Lt c (Const due))))
       (with_due_time work_units)"

definition objective_constraints ::
  "(task \<rightharpoonup> nj_variable) \<Rightarrow> bool \<Rightarrow> work_unit list \<Rightarrow> error + nj_constr list" where
  "objective_constraints d optimize work_units =
     (if optimize then optimize_constraints d work_units
      else deadline_constraints d work_units)"

text \<open>Everything the function adds to \<open>model\<close>, in the order of the source.\<close>

definition build_model :: "int \<Rightarrow> bool \<Rightarrow> work_unit list \<Rightarrow> error + nj_constr list" where
  "build_model upper_bound optimize work_units =
     (let all_tasks = all_tasks_of work_units;
          d = nj_tasks upper_bound all_tasks;
          dr = nj_taskresources all_tasks;
          all_resources = all_resources_of all_tasks
      in err_bind (traverse (resource_constraints d dr all_tasks) all_resources) (\<lambda>contention.
         err_bind (chain_constraints d work_units) (\<lambda>chain.
         err_bind (custom_constraints d work_units) (\<lambda>custom.
         err_bind (dependency_constraints d work_units) (\<lambda>dependency.
         err_bind (pin_constraints d work_units) (\<lambda>pins.
         err_bind (objective_constraints d optimize work_units) (\<lambda>objective.
           Inr (concat contention @ chain @ custom @ dependency @ pins @ objective))))))))"

text \<open>The external engine: \<open>model.load(solver_method)\<close>, \<open>setTimeLimit\<close> and
  \<open>solve()\<close>. It either rejects the backend name, reports \<open>False\<close>, or leaves a value
  in every variable, which \<open>get_value()\<close> reads. The engine is a parameter of the
  scheduler.\<close>

datatype verdict = BackendFailure | NoSolution | Solution assignment

type_synonym engine = "string \<Rightarrow> int \<Rightarrow> nj_constr list \<Rightarrow> verdict"

text \<open>The triple stored in \<open>task.scheduled\<close>.\<close>

definition scheduled_of ::
  "assignment \<Rightarrow> (task \<rightharpoonup> nj_variable) \<Rightarrow> (task \<rightharpoonup> (resource \<rightharpoonup> nj_variable)) \<Rightarrow> task \<Rightarrow>
     error + scheduled" where
  "scheduled_of a d dr task =
     err_bind (getitem d task) (\<lambda>nj_task.
       (let start = a nj_task; end' = start + duration task
        in err_bind (traverse (\<lambda>resource.
                        err_bind (getitem dr task) (\<lambda>rs.
                        err_bind (getitem rs resource) (\<lambda>s. Inr (resource, a s))))
                      (resources task)) (\<lambda>resources'.
             Inr (start, end', resources'))))"

text \<open>The final loop over \<open>all_tasks\<close>; an exception would keep the writes made so far.\<close>

fun materialize ::
  "assignment \<Rightarrow> (task \<rightharpoonup> nj_variable) \<Rightarrow> (task \<rightharpoonup> (resource \<rightharpoonup> nj_variable)) \<Rightarrow>
     task list \<Rightarrow> store \<Rightarrow> error option \<times> store" where
  "materialize a d dr [] st = (None, st)"
| "materialize a d dr (task # rest) st =
     (case scheduled_of a d dr task of
        Inl e \<Rightarrow> (Some e, st)
      | Inr v \<Rightarrow> materialize a d dr rest (st(task \<mapsto> v)))"

text \<open>The whole call, from the store of \<open>scheduled\<close> fields before it to the result and
  the store after it. The source's defaults are \<open>upper_bound=500\<close>, \<open>optimize=True\<close>,
  \<open>time_limit=5\<close> and \<open>solver_method="Mistral"\<close>.\<close>

definition numberjack_scheduler ::
  "engine \<Rightarrow> work_unit list \<Rightarrow> int \<Rightarrow> bool \<Rightarrow> int \<Rightarrow> string \<Rightarrow> store \<Rightarrow>
     (error + work_unit list) \<times> store" where
  "numberjack_scheduler engine work_units upper_bound optimize time_limit solver_method st =
     (let all_tasks = all_tasks_of work_units;
          d = nj_tasks upper_bound all_tasks;
          dr = nj_taskresources all_tasks
      in case build_model upper_bound optimize work_units of
           Inl e \<Rightarrow> (Inl e, st)
         | Inr model \<Rightarrow>
             (case engine solver_method time_limit model of
                BackendFailure \<Rightarrow> (Inl BackendError, st)
              | NoSolution \<Rightarrow>
                  (Inl (ValueError ''No solution found by the schedule optimizer !''), st)
              | Solution a \<Rightarrow>
                  (case materialize a d dr all_tasks st of
                     (Some e, st') \<Rightarrow> (Inl e, st')
                   | (None, st') \<Rightarrow> (Inr work_units, st'))))"

section \<open>Closed forms of what the scheduler builds\<close>

text \<open>The value of \<open>nj_tasks[task]\<close> and of \<open>nj_taskresources[task][resource]\<close> for a task of
  \<open>all_tasks\<close>.\<close>

definition start_var :: "int \<Rightarrow> task \<Rightarrow> nj_variable" where
  "start_var upper_bound task = Task (Start task) upper_bound (duration task)"

definition slot_var :: "task \<Rightarrow> resource \<Rightarrow> nj_variable" where
  "slot_var task resource = Variable (Slot task resource) 1 (capacity resource)"

text \<open>\<open>nj_tasks[task] + task.duration <= nj_tasks[next_task]\<close>.\<close>

definition precedes :: "int \<Rightarrow> task \<Rightarrow> task \<Rightarrow> nj_constr" where
  "precedes upper_bound task next_task =
     Le (Add (Var (start_var upper_bound task)) (Const (duration task)))
        (Var (start_var upper_bound next_task))"

text \<open>What \<open>slot_disjunction\<close> returns for a pair of tasks of \<open>all_tasks\<close> that both require
  the resource.\<close>

definition pair_disjunction :: "int \<Rightarrow> resource \<Rightarrow> task \<times> task \<Rightarrow> nj_constr" where
  "pair_disjunction upper_bound resource p =
     Or (Or (precedes upper_bound (fst p) (snd p)) (precedes upper_bound (snd p) (fst p)))
        (AllDiff [Var (slot_var (fst p) resource), Var (slot_var (snd p) resource)])"

text \<open>What \<open>resource_constraints\<close> returns for a resource.\<close>

definition contention_of :: "int \<Rightarrow> task list \<Rightarrow> resource \<Rightarrow> nj_constr list" where
  "contention_of upper_bound all_tasks resource =
     (if capacity resource = 1
      then [UnaryResource (map (start_var upper_bound) (filter (requires resource) all_tasks))]
      else map (pair_disjunction upper_bound resource)
             (tasks_pairs_sharing_resource all_tasks resource))"

text \<open>The index lists of the comprehensions: adjacent tasks, (work unit, parent) pairs and
  (work unit, custom constraint) pairs.\<close>

definition adjacent_pairs :: "work_unit list \<Rightarrow> (task \<times> task) list" where
  "adjacent_pairs work_units =
     concat (map (\<lambda>work_unit. zip (tasks work_unit) (tl (tasks work_unit))) work_units)"

definition dependency_pairs :: "work_unit list \<Rightarrow> (work_unit \<times> work_unit) list" where
  "dependency_pairs work_units =
     concat (map (\<lambda>work_unit. map (Pair work_unit) (parents work_unit)) work_units)"

definition custom_pairs ::
  "work_unit list \<Rightarrow> (work_unit \<times> (nj_variable list \<Rightarrow> nj_constr)) list" where
  "custom_pairs work_units =
     concat (map (\<lambda>work_unit. map (Pair work_unit) (constraints work_unit)) work_units)"

text \<open>The completion expression of a work unit with a last task.\<close>

definition end_expr :: "int \<Rightarrow> work_unit \<Rightarrow> nj_expr" where
  "end_expr upper_bound work_unit =
     Add (Var (start_var upper_bound (last (tasks work_unit))))
         (Const (duration (last (tasks work_unit))))"

text \<open>The constraints of the dependency and the pin comprehension.\<close>

definition dependency_constraint :: "int \<Rightarrow> work_unit \<times> work_unit \<Rightarrow> nj_constr" where
  "dependency_constraint upper_bound p =
     Le (end_expr upper_bound (snd p)) (Var (start_var upper_bound (hd (tasks (fst p)))))"

definition pin_constraint :: "int \<Rightarrow> work_unit \<times> int \<Rightarrow> nj_constr" where
  "pin_constraint upper_bound p =
     Eq (Var (start_var upper_bound (hd (tasks (fst p))))) (Const (snd p))"

text \<open>The summand of the first sum of the optimize branch, and the constraint of the
  feasibility branch.\<close>

definition delay_expr :: "int \<Rightarrow> work_unit \<times> int \<Rightarrow> nj_expr" where
  "delay_expr upper_bound p =
     Mul (Max [Var ZERO, Sub (end_expr upper_bound (fst p)) (Const (snd p))])
         (Const (1000 * priority (fst p)))"

definition deadline_constraint :: "int \<Rightarrow> work_unit \<times> int \<Rightarrow> nj_constr" where
  "deadline_constraint upper_bound p = Lt (end_expr upper_bound (fst p)) (Const (snd p))"

text \<open>The right-hand side of the surrogate constraint.\<close>

definition surrogate_bound :: "int \<Rightarrow> work_unit list \<Rightarrow> nj_expr" where
  "surrogate_bound upper_bound work_units =
     Add (py_sum (map (delay_expr upper_bound) (with_due_time work_units)))
         (py_sum (map (end_expr upper_bound) work_units))"

text \<open>What \<open>objective_constraints\<close> returns when it returns.\<close>

definition objective_of :: "int \<Rightarrow> bool \<Rightarrow> work_unit list \<Rightarrow> nj_constr list" where
  "objective_of upper_bound optimize work_units =
     (if optimize
      then [Gt (Var C_max) (surrogate_bound upper_bound work_units), Minimize (Var C_max)]
      else map (deadline_constraint upper_bound) (with_due_time work_units))"

text \<open>Everything \<open>build_model\<close> adds before the objective.\<close>

definition hard_constraints :: "int \<Rightarrow> work_unit list \<Rightarrow> nj_constr list" where
  "hard_constraints upper_bound work_units =
     concat (map (contention_of upper_bound (all_tasks_of work_units))
               (all_resources_of (all_tasks_of work_units)))
     @ map (\<lambda>(t, u). precedes upper_bound t u) (adjacent_pairs work_units)
     @ map (\<lambda>(work_unit, constraint).
              constraint (map (start_var upper_bound) (tasks work_unit)))
         (custom_pairs work_units)
     @ map (dependency_constraint upper_bound) (dependency_pairs work_units)
     @ map (pin_constraint upper_bound) (with_scheduled_start work_units)"

text \<open>The inputs on which no subscript of \<open>build_model\<close> raises.\<close>

definition buildable :: "bool \<Rightarrow> work_unit list \<Rightarrow> bool" where
  "buildable optimize work_units =
     (list_all (\<lambda>(work_unit, parent).
          tasks parent \<noteq> [] \<and> last (tasks parent) \<in> set (all_tasks_of work_units)
          \<and> tasks work_unit \<noteq> []) (dependency_pairs work_units)
      \<and> list_all (\<lambda>(work_unit, s). tasks work_unit \<noteq> []) (with_scheduled_start work_units)
      \<and> (if optimize then list_all (\<lambda>work_unit. tasks work_unit \<noteq> []) work_units
         else list_all (\<lambda>(work_unit, due). tasks work_unit \<noteq> []) (with_due_time work_units)))"

text \<open>The completion time of a work unit under an assignment: the start of its last task
  plus that task's duration.\<close>

definition completion_time :: "assignment \<Rightarrow> int \<Rightarrow> work_unit \<Rightarrow> int" where
  "completion_time a upper_bound work_unit =
     a (start_var upper_bound (last (tasks work_unit))) + duration (last (tasks work_unit))"

text \<open>The two sums the surrogate must exceed, written over the work units themselves: a
  work unit without a due time contributes no tardiness.\<close>

definition weighted_tardiness :: "assignment \<Rightarrow> int \<Rightarrow> work_unit list \<Rightarrow> int" where
  "weighted_tardiness a upper_bound work_units =
     (\<Sum>work_unit \<leftarrow> work_units.
        case due_time work_unit of
          None \<Rightarrow> 0
        | Some due \<Rightarrow>
            1000 * priority work_unit * max 0 (completion_time a upper_bound work_unit - due))"

definition total_completion :: "assignment \<Rightarrow> int \<Rightarrow> work_unit list \<Rightarrow> int" where
  "total_completion a upper_bound work_units =
     (\<Sum>work_unit \<leftarrow> work_units. completion_time a upper_bound work_unit)"

text \<open>An engine is sound when every assignment it returns satisfies the model it was
  given.\<close>

definition sound :: "engine \<Rightarrow> bool" where
  "sound engine =
     (\<forall>solver_method time_limit model a.
        engine solver_method time_limit model = Solution a \<longrightarrow> satisfies a model)"

text \<open>The triple the final loop stores for a task.\<close>

definition scheduled_value :: "assignment \<Rightarrow> int \<Rightarrow> task \<Rightarrow> scheduled" where
  "scheduled_value a upper_bound task =
     (a (start_var upper_bound task), a (start_var upper_bound task) + duration task,
      map (\<lambda>resource. (resource, a (slot_var task resource))) (resources task))"

text \<open>The exception raised when the engine reports no solution.\<close>

definition no_solution :: error where
  "no_solution = ValueError ''No solution found by the schedule optimizer !''"

section \<open>A small project used to instantiate the theorems\<close>

text \<open>Two work units sharing an exclusive resource \<open>R\<close> and a pooled resource \<open>P\<close>: \<open>A\<close> has
  two tasks, \<open>B\<close> has one, depends on \<open>A\<close>, is due at 20 and is pinned to start at 5.\<close>

definition R1 :: resource where "R1 = \<lparr>rname = ''R'', capacity = 1\<rparr>"

definition P2 :: resource where "P2 = \<lparr>rname = ''P'', capacity = 2\<rparr>"

definition A1 :: task where "A1 = \<lparr>tname = ''A1'', duration = 3, resources = [R1, P2]\<rparr>"

definition A2 :: task where "A2 = \<lparr>tname = ''A2'', duration = 2, resources = [R1, P2]\<rparr>"

definition B1 :: task where "B1 = \<lparr>tname = ''B1'', duration = 4, resources = [R1, P2]\<rparr>"

definition wuA :: work_unit where "wuA = WorkUnit ''A'' [A1, A2] [] [] None 1 None"

definition wuB :: work_unit where "wuB = WorkUnit ''B'' [B1] [] [wuA] (Some 20) 2 (Some 5)"

text \<open>A schedule for them: \<open>A1\<close> at 0, \<open>A2\<close> at 3, \<open>B1\<close> at 5, every slot 1, the
  surrogate at 15.\<close>

fun demo_schedule :: assignment where
  "demo_schedule (Task (Start t) ub d) =
     (if tname t = ''A1'' then 0 else if tname t = ''A2'' then 3 else 5)"
| "demo_schedule (Variable C_max_tag lb ub) = 15"
| "demo_schedule (Variable k lb ub) = 1"
| "demo_schedule v = 0"

text \<open>A work unit that cannot meet its due time: its only task lasts 5 and is due at 1.\<close>

definition overdue_task :: task where
  "overdue_task = \<lparr>tname = ''O1'', duration = 5, resources = []\<rparr>"

definition overdue :: work_unit where
  "overdue = WorkUnit ''O'' [overdue_task] [] [] (Some 1) 1 None"

text \<open>An engine that never finds a solution, and one that always returns the schedule above.\<close>

definition refusing_engine :: engine where
  "refusing_engine solver_method time_limit model = NoSolution"

definition demo_engine :: engine where
  "demo_engine solver_method time_limit model = Solution demo_schedule"

text \<open>A work unit that can only finish late (a task of 10, due at 5), at low priority.\<close>

definition late_task :: task where
  "late_task = \<lparr>tname = ''L1'', duration = 10, resources = []\<rparr>"

definition late :: work_unit where
  "late = WorkUnit ''L'' [late_task] [] [] (Some 5) 1 None"

text \<open>The same at higher stakes: a task of 200, due at 5, priority 10; and its copy without
  a due time.\<close>

definition urgent_task :: task where
  "urgent_task = \<lparr>tname = ''U1'', duration = 200, resources = []\<rparr>"

definition urgent :: work_unit where
  "urgent = WorkUnit ''U'' [urgent_task] [] [] (Some 5) 10 None"

definition relaxed :: work_unit where
  "relaxed = WorkUnit ''U'' [urgent_task] [] [] None 10 None"

text \<open>Every task starts at 0 and the surrogate is 5011.\<close>

fun late_schedule :: assignment where
  "late_schedule (Variable C_max_tag lb ub) = 5011"
| "late_schedule v = 0"

text \<open>An engine that returns the schedule above when it satisfies the model it is given,
  and reports no solution otherwise.\<close>

definition honest_engine :: engine where
  "honest_engine solver_method time_limit model =
     (if satisfies late_schedule model then Solution late_schedule else NoSolution)"

section \<open>The model builder, block by block\<close>

lemma foldl_upd_lookup:
  "foldl (\<lambda>d k. d(k \<mapsto> f k)) m ks k' = (if k' \<in> set ks then Some (f k') else m k')"
  by (induction ks arbitrary: m) auto

lemma nj_tasks_lookup:
  "nj_tasks ub ts t = (if t \<in> set ts then Some (start_var ub t) else None)"
  unfolding nj_tasks_def start_var_def by (simp add: foldl_upd_lookup)

lemma nj_taskresources_lookup:
  "nj_taskresources ts t =
     (if t \<in> set ts
      then Some (\<lambda>r. if r \<in> set (resources t) then Some (slot_var t r) else None)
      else None)"
  unfolding nj_taskresources_def slot_var_def
  by (simp add: foldl_upd_lookup fun_eq_iff)

lemma getitem_nj_tasks:
  "getitem (nj_tasks ub ts) t = (if t \<in> set ts then Inr (start_var ub t) else Inl KeyError)"
  by (simp add: getitem_def nj_tasks_lookup)

lemma err_bind_Inr_iff: "(err_bind m f = Inr y) = (\<exists>x. m = Inr x \<and> f x = Inr y)"
  by (cases m) auto

lemma traverse_Inr_map:
  "(\<And>x. x \<in> set xs \<Longrightarrow> f x = Inr (g x)) \<Longrightarrow> traverse f xs = Inr (map g xs)"
  by (induction xs) auto

lemma combinations2_mem:
  "(x, y) \<in> set (combinations2 xs) \<Longrightarrow> x \<in> set xs \<and> y \<in> set xs"
  by (induction xs) auto





lemma slot_disjunction_ok:
  assumes "t \<in> set ts" "u \<in> set ts" "requires r t" "requires r u"
  shows "slot_disjunction (nj_tasks ub ts) (nj_taskresources ts) r (t, u)
           = Inr (pair_disjunction ub r (t, u))"
  using assms
  by (simp add: slot_disjunction_def getitem_def nj_tasks_lookup nj_taskresources_lookup
        requires_def pair_disjunction_def precedes_def start_var_def)

lemma resource_constraints_eq:
  "resource_constraints (nj_tasks ub ts) (nj_taskresources ts) ts r = Inr (contention_of ub ts r)"
proof (cases "capacity r = 1")
  case True
  have "traverse (getitem (nj_tasks ub ts)) (filter (requires r) ts)
          = Inr (map (start_var ub) (filter (requires r) ts))"
    by (rule traverse_Inr_map) (simp add: getitem_nj_tasks)
  with True show ?thesis by (simp add: resource_constraints_def contention_of_def)
next
  case False
  have "traverse (slot_disjunction (nj_tasks ub ts) (nj_taskresources ts) r)
          (tasks_pairs_sharing_resource ts r)
        = Inr (map (pair_disjunction ub r) (tasks_pairs_sharing_resource ts r))"
    by (rule traverse_Inr_map)
       (auto simp: tasks_pairs_sharing_resource_def dest!: combinations2_mem
             intro!: slot_disjunction_ok)
  with False show ?thesis by (simp add: resource_constraints_def contention_of_def)
qed

lemma contention_eq:
  "traverse (resource_constraints (nj_tasks ub ts) (nj_taskresources ts) ts) rs
     = Inr (map (contention_of ub ts) rs)"
  by (rule traverse_Inr_map) (rule resource_constraints_eq)

lemma adjacent_pairs_mem:
  "(t, u) \<in> set (adjacent_pairs wus) \<Longrightarrow>
     t \<in> set (all_tasks_of wus) \<and> u \<in> set (all_tasks_of wus)"
proof -
  have tl: "\<And>xs :: task list. set (tl xs) \<subseteq> set xs"
    by (case_tac xs) auto
  assume "(t, u) \<in> set (adjacent_pairs wus)"
  then obtain wu where wu: "wu \<in> set wus" "(t, u) \<in> set (zip (tasks wu) (tl (tasks wu)))"
    by (auto simp: adjacent_pairs_def)
  then have "t \<in> set (tasks wu)" "u \<in> set (tasks wu)"
    using tl by (auto dest: set_zip_leftD set_zip_rightD)
  with wu show ?thesis by (auto simp: all_tasks_of_def)
qed

lemma chain_constraints_eq:
  "chain_constraints (nj_tasks ub (all_tasks_of wus)) wus
     = Inr (map (\<lambda>(t, u). precedes ub t u) (adjacent_pairs wus))"
  unfolding chain_constraints_def adjacent_pairs_def[symmetric]
  by (rule traverse_Inr_map)
     (auto simp: getitem_nj_tasks precedes_def dest: adjacent_pairs_mem)

lemma traverse_Inr_cond:
  assumes "\<And>x y. x \<in> set xs \<Longrightarrow> (f x = Inr y) = (ok x \<and> y = g x)"
  shows "(traverse f xs = Inr ys) = (list_all ok xs \<and> ys = map g xs)"
  using assms by (induction xs arbitrary: ys) (auto simp: err_bind_Inr_iff)

lemma custom_constraints_eq:
  "custom_constraints (nj_tasks ub (all_tasks_of wus)) wus
     = Inr (map (\<lambda>(wu, c). c (map (start_var ub) (tasks wu))) (custom_pairs wus))"
  unfolding custom_constraints_def custom_pairs_def[symmetric]
proof (rule traverse_Inr_map)
  fix x assume x: "x \<in> set (custom_pairs wus)"
  obtain wu c where xc: "x = (wu, c)" by (cases x)
  with x have "wu \<in> set wus" by (auto simp: custom_pairs_def)
  then have "traverse (getitem (nj_tasks ub (all_tasks_of wus))) (tasks wu)
               = Inr (map (start_var ub) (tasks wu))"
    by (intro traverse_Inr_map) (auto simp: getitem_nj_tasks all_tasks_of_def)
  then show "(case x of (work_unit, constraint) \<Rightarrow>
               err_bind (traverse (getitem (nj_tasks ub (all_tasks_of wus))) (tasks work_unit))
                 (\<lambda>vs. Inr (constraint vs)))
             = Inr (case x of (wu, c) \<Rightarrow> c (map (start_var ub) (tasks wu)))"
    using xc by simp
qed

lemma getitem_first_Inr: "(getitem_first xs = Inr x) = (xs \<noteq> [] \<and> x = hd xs)"
  by (cases xs) (auto simp: getitem_first_def)

lemma getitem_last_Inr: "(getitem_last xs = Inr x) = (xs \<noteq> [] \<and> x = last xs)"
  by (auto simp: getitem_last_def)

lemma getitem_nj_tasks_Inr:
  "(getitem (nj_tasks ub ts) t = Inr v) = (t \<in> set ts \<and> v = start_var ub t)"
  by (auto simp: getitem_nj_tasks)

lemma first_task_mem: "wu \<in> set wus \<Longrightarrow> tasks wu \<noteq> [] \<Longrightarrow> hd (tasks wu) \<in> set (all_tasks_of wus)"
  unfolding all_tasks_of_def using hd_in_set by fastforce

lemma last_task_mem: "wu \<in> set wus \<Longrightarrow> tasks wu \<noteq> [] \<Longrightarrow> last (tasks wu) \<in> set (all_tasks_of wus)"
  unfolding all_tasks_of_def using last_in_set by fastforce

lemma dependency_constraints_Inr:
  "(dependency_constraints (nj_tasks ub (all_tasks_of wus)) wus = Inr cs) =
     (list_all (\<lambda>(wu, parent). tasks parent \<noteq> [] \<and> last (tasks parent) \<in> set (all_tasks_of wus)
                  \<and> tasks wu \<noteq> []) (dependency_pairs wus)
      \<and> cs = map (dependency_constraint ub) (dependency_pairs wus))"
  unfolding dependency_constraints_def dependency_pairs_def[symmetric]
proof (rule traverse_Inr_cond)
  fix x y assume x: "x \<in> set (dependency_pairs wus)"
  obtain wu p where xp: "x = (wu, p)" by (cases x)
  with x have "wu \<in> set wus" by (auto simp: dependency_pairs_def)
  then show "((case x of (work_unit, parent_work_unit) \<Rightarrow>
        err_bind (getitem_last (tasks parent_work_unit)) (\<lambda>last_task.
        err_bind (getitem (nj_tasks ub (all_tasks_of wus)) last_task) (\<lambda>v.
        err_bind (getitem_first (tasks work_unit)) (\<lambda>first_task.
        err_bind (getitem (nj_tasks ub (all_tasks_of wus)) first_task) (\<lambda>w.
          Inr (Le (Add (Var v) (Const (duration last_task))) (Var w))))))) = Inr y)
     = ((case x of (wu, parent) \<Rightarrow> tasks parent \<noteq> [] \<and> last (tasks parent) \<in> set (all_tasks_of wus)
                  \<and> tasks wu \<noteq> []) \<and> y = dependency_constraint ub x)"
    using xp
    by (auto simp: err_bind_Inr_iff getitem_first_Inr getitem_last_Inr getitem_nj_tasks_Inr
          dependency_constraint_def end_expr_def first_task_mem)
qed

lemma with_scheduled_start_mem:
  "((wu, s) \<in> set (with_scheduled_start wus)) = (wu \<in> set wus \<and> scheduled_start wu = Some s)"
  by (auto simp: with_scheduled_start_def split: option.splits)

lemma with_due_time_mem:
  "((wu, t) \<in> set (with_due_time wus)) = (wu \<in> set wus \<and> due_time wu = Some t)"
  by (auto simp: with_due_time_def split: option.splits)

lemma pin_constraints_Inr:
  "(pin_constraints (nj_tasks ub (all_tasks_of wus)) wus = Inr cs) =
     (list_all (\<lambda>(wu, s). tasks wu \<noteq> []) (with_scheduled_start wus)
      \<and> cs = map (pin_constraint ub) (with_scheduled_start wus))"
  unfolding pin_constraints_def
proof (rule traverse_Inr_cond)
  fix x y assume x: "x \<in> set (with_scheduled_start wus)"
  obtain wu s where xp: "x = (wu, s)" by (cases x)
  with x have "wu \<in> set wus" by (simp add: with_scheduled_start_mem)
  then show "((case x of (work_unit, s) \<Rightarrow>
        err_bind (getitem_first (tasks work_unit)) (\<lambda>first_task.
        err_bind (getitem (nj_tasks ub (all_tasks_of wus)) first_task) (\<lambda>v.
          Inr (Eq (Var v) (Const s))))) = Inr y)
     = ((case x of (wu, s) \<Rightarrow> tasks wu \<noteq> []) \<and> y = pin_constraint ub x)"
    using xp
    by (auto simp: err_bind_Inr_iff getitem_first_Inr getitem_nj_tasks_Inr
          pin_constraint_def first_task_mem)
qed

lemma completion_Inr:
  "wu \<in> set wus \<Longrightarrow>
   (completion (nj_tasks ub (all_tasks_of wus)) wu = Inr c) = (tasks wu \<noteq> [] \<and> c = end_expr ub wu)"
  by (auto simp: completion_def err_bind_Inr_iff getitem_last_Inr getitem_nj_tasks_Inr
        end_expr_def last_task_mem)

lemma deadline_constraints_Inr:
  "(deadline_constraints (nj_tasks ub (all_tasks_of wus)) wus = Inr cs) =
     (list_all (\<lambda>(wu, due). tasks wu \<noteq> []) (with_due_time wus)
      \<and> cs = map (deadline_constraint ub) (with_due_time wus))"
  unfolding deadline_constraints_def
proof (rule traverse_Inr_cond)
  fix x y assume x: "x \<in> set (with_due_time wus)"
  obtain wu s where xp: "x = (wu, s)" by (cases x)
  with x have "wu \<in> set wus" by (simp add: with_due_time_mem)
  then show "((case x of (work_unit, due) \<Rightarrow>
        err_bind (completion (nj_tasks ub (all_tasks_of wus)) work_unit)
          (\<lambda>c. Inr (Lt c (Const due)))) = Inr y)
     = ((case x of (wu, due) \<Rightarrow> tasks wu \<noteq> []) \<and> y = deadline_constraint ub x)"
    using xp
    by (auto simp: err_bind_Inr_iff completion_Inr deadline_constraint_def)
qed

lemma optimize_constraints_Inr:
  "(optimize_constraints (nj_tasks ub (all_tasks_of wus)) wus = Inr cs) =
     (list_all (\<lambda>wu. tasks wu \<noteq> []) wus
      \<and> cs = [Gt (Var C_max) (surrogate_bound ub wus), Minimize (Var C_max)])"
proof -
  let ?d = "nj_tasks ub (all_tasks_of wus)"
  have ends: "\<And>es. (traverse (completion ?d) wus = Inr es) =
      (list_all (\<lambda>wu. tasks wu \<noteq> []) wus \<and> es = map (end_expr ub) wus)"
    by (rule traverse_Inr_cond) (simp add: completion_Inr)
  have delays: "\<And>ds. (traverse (\<lambda>(work_unit, due).
                  err_bind (completion ?d work_unit) (\<lambda>c.
                    Inr (Mul (Max [Var ZERO, Sub c (Const due)])
                             (Const (1000 * priority work_unit)))))
                (with_due_time wus) = Inr ds) =
      (list_all (\<lambda>(wu, due). tasks wu \<noteq> []) (with_due_time wus)
        \<and> ds = map (delay_expr ub) (with_due_time wus))"
  proof (rule traverse_Inr_cond)
    fix x y assume x: "x \<in> set (with_due_time wus)"
    obtain wu s where xp: "x = (wu, s)" by (cases x)
    with x have "wu \<in> set wus" by (simp add: with_due_time_mem)
    then show "((case x of (work_unit, due) \<Rightarrow>
                  err_bind (completion ?d work_unit) (\<lambda>c.
                    Inr (Mul (Max [Var ZERO, Sub c (Const due)])
                             (Const (1000 * priority work_unit))))) = Inr y)
         = ((case x of (wu, due) \<Rightarrow> tasks wu \<noteq> []) \<and> y = delay_expr ub x)"
      using xp by (auto simp: err_bind_Inr_iff completion_Inr delay_expr_def)
  qed
  have sub: "list_all (\<lambda>wu. tasks wu \<noteq> []) wus \<Longrightarrow>
             list_all (\<lambda>(wu, due). tasks wu \<noteq> []) (with_due_time wus)"
    by (auto simp: list_all_iff with_due_time_mem)
  show ?thesis
    unfolding optimize_constraints_def err_bind_Inr_iff ends delays surrogate_bound_def
    using sub by auto
qed

lemma objective_constraints_Inr:
  "(objective_constraints (nj_tasks ub (all_tasks_of wus)) opt wus = Inr cs) =
     ((if opt then list_all (\<lambda>wu. tasks wu \<noteq> []) wus
       else list_all (\<lambda>(wu, due). tasks wu \<noteq> []) (with_due_time wus))
      \<and> cs = objective_of ub opt wus)"
  by (simp add: objective_constraints_def objective_of_def optimize_constraints_Inr
        deadline_constraints_Inr)

lemma build_model_Inr:
  "(build_model ub opt wus = Inr model) =
     (buildable opt wus \<and> model = hard_constraints ub wus @ objective_of ub opt wus)"
  unfolding build_model_def Let_def err_bind_Inr_iff contention_eq chain_constraints_eq
    custom_constraints_eq dependency_constraints_Inr pin_constraints_Inr
    objective_constraints_Inr buildable_def hard_constraints_def
  by auto

section \<open>The small project, evaluated\<close>

lemma demo_buildable: "buildable opt [wuA, wuB]"
  by (simp add: buildable_def dependency_pairs_def with_scheduled_start_def with_due_time_def
       all_tasks_of_def wuA_def wuB_def)

lemma demo_tasks: "all_tasks_of [wuA, wuB] = [A1, A2, B1]"
  by (simp add: all_tasks_of_def wuA_def wuB_def)

lemma demo_resources: "all_resources_of [A1, A2, B1] = [R1, P2]"
  by (simp add: all_resources_of_def A1_def A2_def B1_def R1_def P2_def)

lemma demo_hard:
  "hard_constraints 500 [wuA, wuB] =
     [UnaryResource [start_var 500 A1, start_var 500 A2, start_var 500 B1],
      pair_disjunction 500 P2 (A1, A2), pair_disjunction 500 P2 (A1, B1),
      pair_disjunction 500 P2 (A2, B1),
      precedes 500 A1 A2,
      dependency_constraint 500 (wuB, wuA),
      pin_constraint 500 (wuB, 5)]"
  unfolding hard_constraints_def demo_tasks demo_resources
  by (simp add: contention_of_def requires_def tasks_pairs_sharing_resource_def
      adjacent_pairs_def custom_pairs_def dependency_pairs_def with_scheduled_start_def
      wuA_def wuB_def A1_def A2_def B1_def R1_def P2_def)

lemma demo_distinct: "A1 \<noteq> A2" "A1 \<noteq> B1" "A2 \<noteq> B1"
  by (simp_all add: A1_def A2_def B1_def)

lemma demo_satisfies_hard: "satisfies demo_schedule (hard_constraints 500 [wuA, wuB])"
  unfolding demo_hard
  by (simp add: satisfies_def no_overlap_def pair_disjunction_def precedes_def
      dependency_constraint_def pin_constraint_def end_expr_def start_var_def slot_var_def
      wuA_def wuB_def A1_def A2_def B1_def R1_def P2_def)

lemma demo_satisfies_opt:
  "satisfies demo_schedule (objective_of 500 True [wuA, wuB])"
  by (simp add: satisfies_def objective_of_def surrogate_bound_def with_due_time_def py_sum_def
      delay_expr_def end_expr_def start_var_def C_max_def ZERO_def lower_bound_def
      wuA_def wuB_def A1_def A2_def B1_def)

lemma demo_satisfies_feas:
  "satisfies demo_schedule (objective_of 500 False [wuA, wuB])"
  by (simp add: satisfies_def objective_of_def with_due_time_def deadline_constraint_def
      end_expr_def start_var_def
      wuA_def wuB_def A1_def A2_def B1_def)

lemma satisfies_append: "satisfies a (xs @ ys) = (satisfies a xs \<and> satisfies a ys)"
  by (auto simp: satisfies_def)

lemma demo_model: "build_model 500 opt [wuA, wuB]
   = Inr (hard_constraints 500 [wuA, wuB] @ objective_of 500 opt [wuA, wuB])"
  by (simp add: build_model_Inr demo_buildable)

lemma demo_satisfies: "satisfies demo_schedule (hard_constraints 500 [wuA, wuB] @ objective_of 500 opt [wuA, wuB])"
  by (cases opt) (simp_all add: satisfies_append demo_satisfies_hard demo_satisfies_opt demo_satisfies_feas)

section \<open>Assignments and the built model\<close>

lemma satisfies_holds: "satisfies a m \<Longrightarrow> c \<in> set m \<Longrightarrow> holds a c"
  by (simp add: satisfies_def)

lemma satisfies_domain: "satisfies a m \<Longrightarrow> c \<in> set m \<Longrightarrow> v \<in> vars_of c \<Longrightarrow> in_domain v (a v)"
  by (simp add: satisfies_def)

lemma eval_foldl_Add: "eval a (foldl Add e es) = eval a e + sum_list (map (eval a) es)"
  by (induction es arbitrary: e) auto

lemma eval_py_sum: "eval a (py_sum es) = sum_list (map (eval a) es)"
  by (simp add: py_sum_def eval_foldl_Add)

lemma no_overlap_sym: "no_overlap a v w = no_overlap a w v"
  by (auto simp: no_overlap_def)

lemma pairwise_no_overlap_mem:
  "pairwise_no_overlap a vs \<Longrightarrow> v \<in> set vs \<Longrightarrow> w \<in> set vs \<Longrightarrow> v \<noteq> w \<Longrightarrow> no_overlap a v w"
  by (induction vs) (auto simp: no_overlap_sym)

lemma nth_adjacent: "Suc i < length xs \<Longrightarrow> (xs ! i, xs ! Suc i) \<in> set (zip xs (tl xs))"
  by (auto simp: in_set_zip nth_tl intro!: exI[of _ i])

lemma contention_in_hard:
  "r \<in> set (all_resources_of (all_tasks_of wus)) \<Longrightarrow>
     set (contention_of ub (all_tasks_of wus) r) \<subseteq> set (hard_constraints ub wus)"
  by (auto simp: hard_constraints_def)

lemma chain_in_hard:
  "(t, u) \<in> set (adjacent_pairs wus) \<Longrightarrow> precedes ub t u \<in> set (hard_constraints ub wus)"
  by (force simp: hard_constraints_def)

lemma dependency_in_hard:
  "p \<in> set (dependency_pairs wus) \<Longrightarrow> dependency_constraint ub p \<in> set (hard_constraints ub wus)"
  by (simp add: hard_constraints_def)

lemma pin_in_hard:
  "p \<in> set (with_scheduled_start wus) \<Longrightarrow> pin_constraint ub p \<in> set (hard_constraints ub wus)"
  by (simp add: hard_constraints_def)

lemma start_var_inj: "(start_var ub t = start_var ub u) = (t = u)"
  by (auto simp: start_var_def)





lemma vars_foldl_Add:
  "vars_of_expr (foldl Add e es) = vars_of_expr e \<union> (\<Union>x \<in> set es. vars_of_expr x)"
  by (induction es arbitrary: e) auto

lemma vars_py_sum: "vars_of_expr (py_sum es) = (\<Union>x \<in> set es. vars_of_expr x)"
  by (simp add: py_sum_def vars_foldl_Add)

lemma eval_end_expr: "eval a (end_expr ub wu) = completion_time a ub wu"
  by (simp add: end_expr_def completion_time_def)

lemma eval_delay_expr:
  "a ZERO = 0 \<Longrightarrow>
   eval a (delay_expr ub p) = 1000 * priority (fst p) * max 0 (completion_time a ub (fst p) - snd p)"
  by (simp add: delay_expr_def eval_end_expr)

lemma sum_with_due_time:
  fixes g :: "work_unit \<times> int \<Rightarrow> int"
  shows "sum_list (map g (with_due_time wus))
           = (\<Sum>wu \<leftarrow> wus. case due_time wu of None \<Rightarrow> 0 | Some due \<Rightarrow> g (wu, due))"
proof (induction wus)
  case Nil
  show ?case by (simp add: with_due_time_def)
next
  case (Cons wu wus)
  have "with_due_time (wu # wus)
          = (case due_time wu of None \<Rightarrow> [] | Some t \<Rightarrow> [(wu, t)]) @ with_due_time wus"
    by (simp add: with_due_time_def)
  with Cons show ?case by (simp split: option.splits)
qed

lemma weighted_tardiness_eq:
  "weighted_tardiness a ub wus
     = sum_list (map (\<lambda>p. 1000 * priority (fst p) * max 0 (completion_time a ub (fst p) - snd p))
         (with_due_time wus))"
  by (simp add: weighted_tardiness_def sum_with_due_time cong: option.case_cong)

lemma eval_surrogate_bound:
  assumes "a ZERO = 0 \<or> with_due_time wus = []"
  shows "eval a (surrogate_bound ub wus) = weighted_tardiness a ub wus + total_completion a ub wus"
proof -
  have "sum_list (map (eval a) (map (delay_expr ub) (with_due_time wus)))
          = weighted_tardiness a ub wus"
  proof (cases "with_due_time wus = []")
    case True
    then show ?thesis by (simp add: weighted_tardiness_eq)
  next
    case False
    with assms have z: "a ZERO = 0" by simp
    have "map (eval a) (map (delay_expr ub) (with_due_time wus))
            = map (\<lambda>p. 1000 * priority (fst p) * max 0 (completion_time a ub (fst p) - snd p))
                (with_due_time wus)"
      using z by (auto simp: eval_delay_expr)
    then show ?thesis unfolding weighted_tardiness_eq by (rule arg_cong)
  qed
  moreover have "sum_list (map (eval a) (map (end_expr ub) wus)) = total_completion a ub wus"
    by (simp add: total_completion_def comp_def eval_end_expr)
  ultimately show ?thesis by (simp add: surrogate_bound_def eval_py_sum)
qed

lemma ZERO_in_surrogate_bound:
  "with_due_time wus \<noteq> [] \<Longrightarrow> ZERO \<in> vars_of_expr (surrogate_bound ub wus)"
proof -
  assume "with_due_time wus \<noteq> []"
  then obtain p where "p \<in> set (with_due_time wus)" by (cases "with_due_time wus") auto
  moreover have "ZERO \<in> vars_of_expr (delay_expr ub p)" by (simp add: delay_expr_def)
  ultimately show ?thesis by (auto simp: surrogate_bound_def vars_py_sum)
qed

lemma in_domain_ZERO: "in_domain ZERO x = (x = 0)"
  by (simp add: ZERO_def)

lemma in_domain_C_max: "in_domain C_max x = (0 \<le> x \<and> x \<le> 1500000)"
  by (simp add: C_max_def lower_bound_def)

lemma scheduled_of_eq:
  "task \<in> set ts \<Longrightarrow>
   scheduled_of a (nj_tasks ub ts) (nj_taskresources ts) task = Inr (scheduled_value a ub task)"
proof -
  assume t: "task \<in> set ts"
  have "traverse (\<lambda>resource.
            err_bind (getitem (nj_taskresources ts) task) (\<lambda>rs.
            err_bind (getitem rs resource) (\<lambda>s. Inr (resource, a s))))
          (resources task)
        = Inr (map (\<lambda>resource. (resource, a (slot_var task resource))) (resources task))"
    by (rule traverse_Inr_map) (simp add: t getitem_def nj_taskresources_lookup)
  then show ?thesis
    by (simp add: scheduled_of_def getitem_nj_tasks t scheduled_value_def Let_def)
qed

lemma materialize_eq:
  "set ts' \<subseteq> set ts \<Longrightarrow>
   materialize a (nj_tasks ub ts) (nj_taskresources ts) ts' st
     = (None, \<lambda>t. if t \<in> set ts' then Some (scheduled_value a ub t) else st t)"
proof (induction ts' arbitrary: st)
  case Nil
  show ?case by simp
next
  case (Cons x xs)
  then have "x \<in> set ts" "set xs \<subseteq> set ts" by auto
  then have "materialize a (nj_tasks ub ts) (nj_taskresources ts) (x # xs) st
      = materialize a (nj_tasks ub ts) (nj_taskresources ts) xs
          (st(x \<mapsto> scheduled_value a ub x))"
    by (simp add: scheduled_of_eq)
  also have "\<dots> = (None, \<lambda>t. if t \<in> set xs then Some (scheduled_value a ub t)
                            else (st(x \<mapsto> scheduled_value a ub x)) t)"
    using \<open>set xs \<subseteq> set ts\<close> by (rule Cons.IH)
  also have "(\<lambda>t. if t \<in> set xs then Some (scheduled_value a ub t)
                            else (st(x \<mapsto> scheduled_value a ub x)) t)
       = (\<lambda>t. if t \<in> set (x # xs) then Some (scheduled_value a ub t) else st t)"
    by (auto simp: fun_eq_iff)
  finally show ?case .
qed

lemma numberjack_scheduler_cases:
  "numberjack_scheduler engine wus ub opt lim meth st =
     (case build_model ub opt wus of
        Inl e \<Rightarrow> (Inl e, st)
      | Inr model \<Rightarrow>
          (case engine meth lim model of
             BackendFailure \<Rightarrow> (Inl BackendError, st)
           | NoSolution \<Rightarrow> (Inl no_solution, st)
           | Solution a \<Rightarrow>
               (Inr wus, \<lambda>t. if t \<in> set (all_tasks_of wus)
                              then Some (scheduled_value a ub t) else st t)))"
  by (simp add: numberjack_scheduler_def Let_def materialize_eq no_solution_def
        split: sum.splits verdict.splits)

lemma demo_scheduled_A1:
  "scheduled_value demo_schedule 500 A1 = (0, 3, [(R1, 1), (P2, 1)])"
  by (simp add: scheduled_value_def start_var_def slot_var_def A1_def R1_def P2_def)

lemma C_max_not_in_deadline: "C_max \<notin> vars_of (deadline_constraint ub p)"
  by (simp add: deadline_constraint_def end_expr_def start_var_def C_max_def)

lemma overdue_model:
  "build_model 500 False [overdue]
     = Inr (hard_constraints 500 [overdue] @ objective_of 500 False [overdue])"
  by (simp add: build_model_Inr buildable_def dependency_pairs_def with_scheduled_start_def
        with_due_time_def overdue_def)

lemma overdue_objective:
  "objective_of 500 False [overdue]
     = [Lt (Add (Var (Task (Start overdue_task) 500 5)) (Const 5)) (Const 1)]"
  by (simp add: objective_of_def with_due_time_def deadline_constraint_def end_expr_def
        start_var_def overdue_def overdue_task_def)

lemma overdue_infeasible:
  "\<not> feasible (hard_constraints 500 [overdue] @ objective_of 500 False [overdue])"
  unfolding feasible_def satisfies_append overdue_objective
  by (auto simp: satisfies_def)

lemma refusing_engine_sound: "sound refusing_engine"
  by (simp add: sound_def refusing_engine_def)

lemma vars_end_expr: "vars_of_expr (end_expr ub wu) = {start_var ub (last (tasks wu))}"
  by (simp add: end_expr_def)

lemma last_start_in_surrogate_bound:
  "wu \<in> set wus \<Longrightarrow> start_var ub (last (tasks wu)) \<in> vars_of_expr (surrogate_bound ub wus)"
  by (auto simp: surrogate_bound_def vars_py_sum vars_end_expr)

lemma surrogate_exceeds:
  assumes s: "satisfies a m" and mem: "Gt (Var C_max) (surrogate_bound ub wus) \<in> set m"
  shows "0 \<le> a C_max \<and> a C_max \<le> 1500000
         \<and> weighted_tardiness a ub wus + total_completion a ub wus < a C_max"
proof -
  have "in_domain C_max (a C_max)"
    using satisfies_domain[OF s mem, of C_max] by simp
  then have dom: "0 \<le> a C_max \<and> a C_max \<le> 1500000" by (simp add: in_domain_C_max)
  have z: "a ZERO = 0 \<or> with_due_time wus = []"
  proof (cases "with_due_time wus = []")
    case True
    then show ?thesis by simp
  next
    case False
    then have "ZERO \<in> vars_of (Gt (Var C_max) (surrogate_bound ub wus))"
      by (simp add: ZERO_in_surrogate_bound)
    from satisfies_domain[OF s mem this] show ?thesis by (simp add: in_domain_ZERO)
  qed
  from satisfies_holds[OF s mem] have "a C_max > eval a (surrogate_bound ub wus)"
    by simp
  with dom z show ?thesis by (auto simp: eval_surrogate_bound)
qed

lemma late_model:
  "build_model 500 True [late]
     = Inr (hard_constraints 500 [late] @ objective_of 500 True [late])"
  by (simp add: build_model_Inr buildable_def dependency_pairs_def with_scheduled_start_def
        late_def)

lemma late_hard: "hard_constraints 500 [late] = []"
  by (simp add: hard_constraints_def all_tasks_of_def all_resources_of_def adjacent_pairs_def
        custom_pairs_def dependency_pairs_def with_scheduled_start_def late_def late_task_def)

lemma late_completion: "completion_time late_schedule 500 late = 10"
  by (simp add: completion_time_def start_var_def late_def late_task_def)

lemma urgent_model:
  "build_model 500 True [urgent]
     = Inr (hard_constraints 500 [urgent] @ objective_of 500 True [urgent])"
  by (simp add: build_model_Inr buildable_def dependency_pairs_def with_scheduled_start_def
        urgent_def)

lemma relaxed_model:
  "build_model 500 True [relaxed]
     = Inr (hard_constraints 500 [relaxed] @ objective_of 500 True [relaxed])"
  by (simp add: build_model_Inr buildable_def dependency_pairs_def with_scheduled_start_def
        relaxed_def)

lemma urgent_infeasible:
  "\<not> feasible (hard_constraints 500 [urgent] @ objective_of 500 True [urgent])"
proof
  let ?g = "Gt (Var C_max) (surrogate_bound 500 [urgent])"
  let ?s = "start_var 500 urgent_task"
  assume "feasible (hard_constraints 500 [urgent] @ objective_of 500 True [urgent])"
  then obtain a
    where s: "satisfies a (hard_constraints 500 [urgent] @ objective_of 500 True [urgent])"
    by (auto simp: feasible_def)
  have mem: "?g \<in> set (hard_constraints 500 [urgent] @ objective_of 500 True [urgent])"
    by (simp add: objective_of_def)
  have l: "last (tasks urgent) = urgent_task" by (simp add: urgent_def)
  have "?s \<in> vars_of ?g"
    using last_start_in_surrogate_bound[of urgent "[urgent]" 500] by (simp add: l)
  from satisfies_domain[OF s mem this] have lo: "0 \<le> a ?s"
    by (simp add: start_var_def)
  from surrogate_exceeds[OF s mem]
  have "weighted_tardiness a 500 [urgent] + total_completion a 500 [urgent] < 1500000"
    by simp
  moreover have "weighted_tardiness a 500 [urgent] = 10000 * max 0 (a ?s + 195)"
    by (simp add: weighted_tardiness_def with_due_time_def completion_time_def urgent_def
          urgent_task_def)
  moreover have "total_completion a 500 [urgent] = a ?s + 200"
    by (simp add: total_completion_def completion_time_def urgent_def urgent_task_def)
  ultimately show False using lo by simp
qed

lemma set_all_resources_of:
  "set (all_resources_of ts) = {r. \<exists>t \<in> set ts. r \<in> set (resources t)}"
  by (auto simp: all_resources_of_def)

lemma distinct_all_resources_of: "distinct (all_resources_of ts)"
  by (simp add: all_resources_of_def)

lemma task_of_work_unit:
  "wu \<in> set wus \<Longrightarrow> t \<in> set (tasks wu) \<Longrightarrow> t \<in> set (all_tasks_of wus)"
  by (auto simp: all_tasks_of_def)

lemma urgent_hard: "hard_constraints 500 [urgent] = []"
  by (simp add: hard_constraints_def all_tasks_of_def all_resources_of_def adjacent_pairs_def
        custom_pairs_def dependency_pairs_def with_scheduled_start_def urgent_def
        urgent_task_def)

lemma relaxed_hard: "hard_constraints 500 [relaxed] = []"
  by (simp add: hard_constraints_def all_tasks_of_def all_resources_of_def adjacent_pairs_def
        custom_pairs_def dependency_pairs_def with_scheduled_start_def relaxed_def
        urgent_task_def)

lemma late_satisfies:
  "satisfies late_schedule (hard_constraints 500 [late] @ objective_of 500 True [late])"
  unfolding late_hard
  by (simp add: satisfies_def objective_of_def surrogate_bound_def with_due_time_def
        py_sum_def delay_expr_def end_expr_def start_var_def C_max_def ZERO_def lower_bound_def
        late_def late_task_def)

lemma relaxed_satisfies:
  "satisfies late_schedule (hard_constraints 500 [relaxed] @ objective_of 500 True [relaxed])"
  unfolding relaxed_hard
  by (simp add: satisfies_def objective_of_def surrogate_bound_def
        with_due_time_def py_sum_def end_expr_def start_var_def C_max_def lower_bound_def
        relaxed_def urgent_task_def)

lemma honest_engine_sound: "sound honest_engine"
  by (simp add: sound_def honest_engine_def)

section \<open>The claims\<close>

subsection \<open>C1\<close>



subsection \<open>C2\<close>

text \<open>Claim C2. The resources the loop visits are exactly those some task of some work unit
  requires, each once. For such a resource of capacity 1 the loop body adds exactly one
  constraint, a \<open>UnaryResource\<close> over the start variables of all the tasks requiring the
  resource, and it is in the model; so in every satisfying assignment two distinct tasks
  of the work units that both require the resource lie one after the other, and their
  half-open intervals from start to end are disjoint.\<close>

theorem exclusive_resource:
  assumes "build_model upper_bound optimize work_units = Inr model"
    and "\<exists>work_unit \<in> set work_units. \<exists>task \<in> set (tasks work_unit).
           resource \<in> set (resources task)"
    and "capacity resource = 1"
  shows "all_tasks_of work_units = concat (map tasks work_units)
       \<and> set (all_resources_of (all_tasks_of work_units))
           = {r. \<exists>work_unit \<in> set work_units. \<exists>task \<in> set (tasks work_unit).
                  r \<in> set (resources task)}
       \<and> distinct (all_resources_of (all_tasks_of work_units))
       \<and> resource \<in> set (all_resources_of (all_tasks_of work_units))
       \<and> resource_constraints (nj_tasks upper_bound (all_tasks_of work_units))
             (nj_taskresources (all_tasks_of work_units)) (all_tasks_of work_units) resource
           = Inr [UnaryResource (map (start_var upper_bound)
                    (filter (\<lambda>task. resource \<in> set (resources task))
                       (all_tasks_of work_units)))]
       \<and> UnaryResource (map (start_var upper_bound)
            (filter (\<lambda>task. resource \<in> set (resources task)) (all_tasks_of work_units)))
           \<in> set model
       \<and> (\<forall>a work_unit task other_unit other_task.
             satisfies a model
             \<and> work_unit \<in> set work_units \<and> task \<in> set (tasks work_unit)
             \<and> other_unit \<in> set work_units \<and> other_task \<in> set (tasks other_unit)
             \<and> task \<noteq> other_task
             \<and> resource \<in> set (resources task) \<and> resource \<in> set (resources other_task) \<longrightarrow>
               (a (start_var upper_bound task) + duration task
                   \<le> a (start_var upper_bound other_task)
                \<or> a (start_var upper_bound other_task) + duration other_task
                   \<le> a (start_var upper_bound task))
               \<and> {a (start_var upper_bound task) ..<
                     a (start_var upper_bound task) + duration task}
                 \<inter> {a (start_var upper_bound other_task) ..<
                     a (start_var upper_bound other_task) + duration other_task} = {})"
proof -
  let ?ts = "all_tasks_of work_units"
  let ?sh = "filter (\<lambda>task. resource \<in> set (resources task)) ?ts"
  let ?u = "UnaryResource (map (start_var upper_bound) ?sh)"
  have rq: "requires resource = (\<lambda>task. resource \<in> set (resources task))"
    by (simp add: fun_eq_iff requires_def)
  from assms(1) have m: "model = hard_constraints upper_bound work_units
                      @ objective_of upper_bound optimize work_units"
    by (simp add: build_model_Inr)
  have flat: "?ts = concat (map tasks work_units)" by (simp add: all_tasks_of_def)
  have visited: "set (all_resources_of ?ts)
           = {r. \<exists>work_unit \<in> set work_units. \<exists>task \<in> set (tasks work_unit).
                  r \<in> set (resources task)}"
    by (auto simp: set_all_resources_of all_tasks_of_def)
  have once: "distinct (all_resources_of ?ts)" by (rule distinct_all_resources_of)
  from assms(2) visited have r: "resource \<in> set (all_resources_of ?ts)" by blast
  have block: "resource_constraints (nj_tasks upper_bound ?ts) (nj_taskresources ?ts) ?ts resource
                 = Inr [?u]"
    using assms(3) by (simp add: resource_constraints_eq contention_of_def rq)
  have mem: "?u \<in> set model"
    using contention_in_hard[OF r, of upper_bound] assms(3) m
    by (simp add: contention_of_def rq)
  have sem: "(a (start_var upper_bound t) + duration t \<le> a (start_var upper_bound u)
                \<or> a (start_var upper_bound u) + duration u \<le> a (start_var upper_bound t))
             \<and> {a (start_var upper_bound t) ..< a (start_var upper_bound t) + duration t}
                 \<inter> {a (start_var upper_bound u) ..< a (start_var upper_bound u) + duration u} = {}"
    if "satisfies a model" "wt \<in> set work_units" "t \<in> set (tasks wt)"
       "wu \<in> set work_units" "u \<in> set (tasks wu)" "t \<noteq> u"
       "resource \<in> set (resources t)" "resource \<in> set (resources u)" for a wt t wu u
  proof -
    from that(1) mem have "holds a ?u" by (rule satisfies_holds)
    then have "pairwise_no_overlap a (map (start_var upper_bound) ?sh)"
      by simp
    moreover have "start_var upper_bound t \<in> set (map (start_var upper_bound) ?sh)"
      "start_var upper_bound u \<in> set (map (start_var upper_bound) ?sh)"
      using that by (auto simp: task_of_work_unit)
    moreover have "start_var upper_bound t \<noteq> start_var upper_bound u"
      using that(6) by (simp add: start_var_inj)
    ultimately have "no_overlap a (start_var upper_bound t) (start_var upper_bound u)"
      by (rule pairwise_no_overlap_mem)
    then have d: "a (start_var upper_bound t) + duration t \<le> a (start_var upper_bound u)
                \<or> a (start_var upper_bound u) + duration u \<le> a (start_var upper_bound t)"
      by (simp add: no_overlap_def start_var_def)
    then show ?thesis by auto
  qed
  from flat visited once r block mem sem show ?thesis by blast
qed

theorem exclusive_resource_witness:
  "build_model 500 False [wuA, wuB]
     = Inr (hard_constraints 500 [wuA, wuB] @ objective_of 500 False [wuA, wuB])
   \<and> wuA \<in> set [wuA, wuB] \<and> A2 \<in> set (tasks wuA)
   \<and> wuB \<in> set [wuA, wuB] \<and> B1 \<in> set (tasks wuB) \<and> A2 \<noteq> B1
   \<and> R1 \<in> set (resources A2) \<and> R1 \<in> set (resources B1) \<and> capacity R1 = 1
   \<and> satisfies demo_schedule (hard_constraints 500 [wuA, wuB] @ objective_of 500 False [wuA, wuB])
   \<and> R1 \<in> set (all_resources_of (all_tasks_of [wuA, wuB]))
   \<and> UnaryResource [start_var 500 A1, start_var 500 A2, start_var 500 B1]
       \<in> set (hard_constraints 500 [wuA, wuB] @ objective_of 500 False [wuA, wuB])
   \<and> {demo_schedule (start_var 500 A2) ..< demo_schedule (start_var 500 A2) + duration A2}
       \<inter> {demo_schedule (start_var 500 B1) ..< demo_schedule (start_var 500 B1) + duration B1}
       = {}"
proof -
  have c: "capacity R1 = 1" by (simp add: R1_def)
  have q: "R1 \<in> set (resources A1)" "R1 \<in> set (resources A2)" "R1 \<in> set (resources B1)"
    by (simp_all add: A1_def A2_def B1_def)
  have wa: "wuA \<in> set [wuA, wuB]" "A2 \<in> set (tasks wuA)"
    and wb: "wuB \<in> set [wuA, wuB]" "B1 \<in> set (tasks wuB)"
    by (simp_all add: wuA_def wuB_def)
  have ex: "\<exists>work_unit \<in> set [wuA, wuB]. \<exists>task \<in> set (tasks work_unit).
              R1 \<in> set (resources task)"
    using wa q(2) by blast
  have sh: "filter (\<lambda>task. R1 \<in> set (resources task)) (all_tasks_of [wuA, wuB]) = [A1, A2, B1]"
    by (simp add: demo_tasks q)
  note th = exclusive_resource[OF demo_model[of False] ex c]
  from th have r: "R1 \<in> set (all_resources_of (all_tasks_of [wuA, wuB]))" by blast
  from th have u: "UnaryResource (map (start_var 500)
            (filter (\<lambda>task. R1 \<in> set (resources task)) (all_tasks_of [wuA, wuB])))
       \<in> set (hard_constraints 500 [wuA, wuB] @ objective_of 500 False [wuA, wuB])"
    by blast
  from th demo_satisfies[of False] wa wb demo_distinct(3) q
  have "{demo_schedule (start_var 500 A2) ..< demo_schedule (start_var 500 A2) + duration A2}
       \<inter> {demo_schedule (start_var 500 B1) ..< demo_schedule (start_var 500 B1) + duration B1}
       = {}"
    by blast
  with u r show ?thesis
    using demo_model[of False] c demo_satisfies[of False] wa wb demo_distinct(3) q
    by (simp add: sh)
qed

subsection \<open>C3\<close>

text \<open>Claim C3. In optimize mode the surrogate \<open>C_max\<close> ranges over \<open>0..1500000\<close>, and the
  objective block consists of the constraint that \<open>C_max\<close> is greater than the sum of the
  delays plus the sum of the completion expressions, followed by \<open>Minimize(C_max)\<close>. Both
  are in the model. The delays are summed over exactly the work units whose \<open>due_time\<close>
  is set, each \<open>max(ZERO, completion - due) * (1000 * priority)\<close>. Where \<open>ZERO\<close> is 0 the
  right-hand side is the sum over the work units with a due time of
  \<open>1000 * priority * max 0 (completion - due)\<close> plus the sum over all work units of the
  completion time, the start of the last task plus its duration; every satisfying
  assignment puts \<open>C_max\<close> strictly above it and within its bounds.\<close>

theorem optimize_surrogate:
  assumes "build_model upper_bound True work_units = Inr model"
  shows "C_max = Variable C_max_tag 0 1500000
       \<and> (\<forall>x. in_domain C_max x = (0 \<le> x \<and> x \<le> 1500000))
       \<and> (\<forall>work_unit due. ((work_unit, due) \<in> set (with_due_time work_units))
             = (work_unit \<in> set work_units \<and> due_time work_unit = Some due))
       \<and> surrogate_bound upper_bound work_units
           = Add (py_sum (map (\<lambda>(work_unit, due).
                      Mul (Max [Var ZERO,
                                Sub (Add (Var (start_var upper_bound (last (tasks work_unit))))
                                         (Const (duration (last (tasks work_unit)))))
                                    (Const due)])
                          (Const (1000 * priority work_unit)))
                    (with_due_time work_units)))
                 (py_sum (map (\<lambda>work_unit.
                      Add (Var (start_var upper_bound (last (tasks work_unit))))
                          (Const (duration (last (tasks work_unit)))))
                    work_units))
       \<and> objective_constraints (nj_tasks upper_bound (all_tasks_of work_units)) True work_units
           = Inr [Gt (Var C_max) (surrogate_bound upper_bound work_units), Minimize (Var C_max)]
       \<and> Gt (Var C_max) (surrogate_bound upper_bound work_units) \<in> set model
       \<and> Minimize (Var C_max) \<in> set model
       \<and> (\<forall>a. a ZERO = 0 \<longrightarrow>
             eval a (surrogate_bound upper_bound work_units)
               = weighted_tardiness a upper_bound work_units
                 + total_completion a upper_bound work_units)
       \<and> (\<forall>a. satisfies a model \<longrightarrow>
             0 \<le> a C_max \<and> a C_max \<le> 1500000
             \<and> a C_max >
                 (\<Sum>work_unit \<leftarrow> work_units.
                    case due_time work_unit of
                      None \<Rightarrow> 0
                    | Some due \<Rightarrow>
                        1000 * priority work_unit
                        * max 0 (a (start_var upper_bound (last (tasks work_unit)))
                                 + duration (last (tasks work_unit)) - due))
                 + (\<Sum>work_unit \<leftarrow> work_units.
                      a (start_var upper_bound (last (tasks work_unit)))
                      + duration (last (tasks work_unit))))"
proof -
  let ?g = "Gt (Var C_max) (surrogate_bound upper_bound work_units)"
  from assms(1) have b: "buildable True work_units"
    and m: "model = hard_constraints upper_bound work_units
                      @ objective_of upper_bound True work_units"
    by (simp_all add: build_model_Inr)
  from b have ok: "list_all (\<lambda>work_unit. tasks work_unit \<noteq> []) work_units"
    by (simp add: buildable_def)
  then have block: "objective_constraints (nj_tasks upper_bound (all_tasks_of work_units)) True
      work_units = Inr [?g, Minimize (Var C_max)]"
    by (simp add: objective_constraints_Inr objective_of_def)
  have mem: "?g \<in> set model" "Minimize (Var C_max) \<in> set model"
    using m by (simp_all add: objective_of_def)
  have due: "\<forall>work_unit due. ((work_unit, due) \<in> set (with_due_time work_units))
             = (work_unit \<in> set work_units \<and> due_time work_unit = Some due)"
    by (simp add: with_due_time_mem)
  have shape: "surrogate_bound upper_bound work_units
           = Add (py_sum (map (\<lambda>(work_unit, due).
                      Mul (Max [Var ZERO,
                                Sub (Add (Var (start_var upper_bound (last (tasks work_unit))))
                                         (Const (duration (last (tasks work_unit)))))
                                    (Const due)])
                          (Const (1000 * priority work_unit)))
                    (with_due_time work_units)))
                 (py_sum (map (\<lambda>work_unit.
                      Add (Var (start_var upper_bound (last (tasks work_unit))))
                          (Const (duration (last (tasks work_unit)))))
                    work_units))"
  proof -
    have "delay_expr upper_bound = (\<lambda>(work_unit, due).
                      Mul (Max [Var ZERO,
                                Sub (Add (Var (start_var upper_bound (last (tasks work_unit))))
                                         (Const (duration (last (tasks work_unit)))))
                                    (Const due)])
                          (Const (1000 * priority work_unit)))"
      by (auto simp: fun_eq_iff delay_expr_def end_expr_def)
    moreover have "end_expr upper_bound = (\<lambda>work_unit.
                      Add (Var (start_var upper_bound (last (tasks work_unit))))
                          (Const (duration (last (tasks work_unit)))))"
      by (simp add: fun_eq_iff end_expr_def)
    ultimately show ?thesis by (simp add: surrogate_bound_def)
  qed
  have sem: "0 \<le> a C_max \<and> a C_max \<le> 1500000
             \<and> a C_max > weighted_tardiness a upper_bound work_units
                          + total_completion a upper_bound work_units"
    if s: "satisfies a model" for a
  proof -
    have "in_domain C_max (a C_max)"
      using satisfies_domain[OF s mem(1), of C_max] by simp
    then have dom: "0 \<le> a C_max \<and> a C_max \<le> 1500000" by (simp add: in_domain_C_max)
    have z: "a ZERO = 0 \<or> with_due_time work_units = []"
    proof (cases "with_due_time work_units = []")
      case True
      then show ?thesis by simp
    next
      case False
      then have "ZERO \<in> vars_of ?g" by (simp add: ZERO_in_surrogate_bound)
      from satisfies_domain[OF s mem(1) this] show ?thesis by (simp add: in_domain_ZERO)
    qed
    from satisfies_holds[OF s mem(1)] have "a C_max > eval a (surrogate_bound upper_bound work_units)"
      by simp
    with dom z show ?thesis by (auto simp: eval_surrogate_bound)
  qed
  then have sem': "\<forall>a. satisfies a model \<longrightarrow>
             0 \<le> a C_max \<and> a C_max \<le> 1500000
             \<and> a C_max >
                 (\<Sum>work_unit \<leftarrow> work_units.
                    case due_time work_unit of
                      None \<Rightarrow> 0
                    | Some due \<Rightarrow>
                        1000 * priority work_unit
                        * max 0 (a (start_var upper_bound (last (tasks work_unit)))
                                 + duration (last (tasks work_unit)) - due))
                 + (\<Sum>work_unit \<leftarrow> work_units.
                      a (start_var upper_bound (last (tasks work_unit)))
                      + duration (last (tasks work_unit)))"
    by (simp add: weighted_tardiness_def total_completion_def completion_time_def
          cong: option.case_cong)
  have ev: "\<forall>a. a ZERO = 0 \<longrightarrow>
             eval a (surrogate_bound upper_bound work_units)
               = weighted_tardiness a upper_bound work_units
                 + total_completion a upper_bound work_units"
    by (simp add: eval_surrogate_bound)
  have cm: "C_max = Variable C_max_tag 0 1500000" by (simp add: C_max_def lower_bound_def)
  have dm: "\<forall>x. in_domain C_max x = (0 \<le> x \<and> x \<le> 1500000)" by (simp add: in_domain_C_max)
  from cm dm due shape block mem ev sem' show ?thesis by blast
qed

theorem optimize_surrogate_witness:
  "build_model 500 True [late]
     = Inr (hard_constraints 500 [late] @ objective_of 500 True [late])
   \<and> satisfies late_schedule (hard_constraints 500 [late] @ objective_of 500 True [late])
   \<and> with_due_time [late] = [(late, 5)]
   \<and> completion_time late_schedule 500 late = 10
   \<and> weighted_tardiness late_schedule 500 [late] = 5000
   \<and> total_completion late_schedule 500 [late] = 10
   \<and> late_schedule ZERO = 0
   \<and> eval late_schedule (surrogate_bound 500 [late]) = 5010
   \<and> late_schedule C_max = 5011
   \<and> late_schedule C_max
       > (\<Sum>work_unit \<leftarrow> [late].
            case due_time work_unit of
              None \<Rightarrow> 0
            | Some due \<Rightarrow>
                1000 * priority work_unit
                * max 0 (late_schedule (start_var 500 (last (tasks work_unit)))
                         + duration (last (tasks work_unit)) - due))
         + (\<Sum>work_unit \<leftarrow> [late].
              late_schedule (start_var 500 (last (tasks work_unit)))
              + duration (last (tasks work_unit)))"
proof -
  have p: "due_time late = Some 5" "priority late = 1" by (simp_all add: late_def)
  have w: "weighted_tardiness late_schedule 500 [late] = 5000"
    by (simp add: weighted_tardiness_def p late_completion)
  have t: "total_completion late_schedule 500 [late] = 10"
    by (simp add: total_completion_def late_completion)
  have z: "late_schedule ZERO = 0" and c: "late_schedule C_max = 5011"
    by (simp_all add: ZERO_def C_max_def)
  have l: "(late, 5) \<in> set [late] \<times> {5}" by simp
  note th = optimize_surrogate[OF late_model]
  from th p have d: "(late, 5) \<in> set (with_due_time [late])" by simp
  have d': "with_due_time [late] = [(late, 5)]" by (simp add: with_due_time_def p)
  from th have "\<forall>a. a ZERO = 0 \<longrightarrow>
             eval a (surrogate_bound 500 [late])
               = weighted_tardiness a 500 [late] + total_completion a 500 [late]"
    by blast
  with z have e: "eval late_schedule (surrogate_bound 500 [late]) = 5010"
    by (simp add: w t)
  from th late_satisfies
  have "late_schedule C_max
       > (\<Sum>work_unit \<leftarrow> [late].
            case due_time work_unit of
              None \<Rightarrow> 0
            | Some due \<Rightarrow>
                1000 * priority work_unit
                * max 0 (late_schedule (start_var 500 (last (tasks work_unit)))
                         + duration (last (tasks work_unit)) - due))
         + (\<Sum>work_unit \<leftarrow> [late].
              late_schedule (start_var 500 (last (tasks work_unit)))
              + duration (last (tasks work_unit)))"
    by blast
  with w t z c e d' late_completion show ?thesis using late_model late_satisfies by simp
qed

subsection \<open>C4\<close>

text \<open>Claim C4. In feasibility mode the objective block is one constraint
  \<open>completion < due_time\<close> per due-dated work unit, each in the model and obeyed by every
  satisfying assignment; none of them mentions \<open>C_max\<close> and none is a \<open>Minimize\<close>. When
  the model has no satisfying assignment and the engine is sound, the call fails and
  leaves the store as it was.\<close>

theorem feasibility_deadlines:
  assumes "build_model upper_bound False work_units = Inr model"
  shows "objective_constraints (nj_tasks upper_bound (all_tasks_of work_units)) False work_units
           = Inr (map (deadline_constraint upper_bound) (with_due_time work_units))
       \<and> (\<forall>work_unit due. work_unit \<in> set work_units \<and> due_time work_unit = Some due \<longrightarrow>
             tasks work_unit \<noteq> []
             \<and> Lt (Add (Var (start_var upper_bound (last (tasks work_unit))))
                       (Const (duration (last (tasks work_unit))))) (Const due) \<in> set model
             \<and> (\<forall>a. satisfies a model \<longrightarrow> completion_time a upper_bound work_unit < due))
       \<and> (\<forall>c. c \<in> set (map (deadline_constraint upper_bound) (with_due_time work_units)) \<longrightarrow>
             C_max \<notin> vars_of c \<and> (\<forall>e. c \<noteq> Minimize e))
       \<and> (\<forall>engine solver_method time_limit st. sound engine \<and> \<not> feasible model \<longrightarrow>
             (\<exists>e. numberjack_scheduler engine work_units upper_bound False time_limit
                      solver_method st = (Inl e, st)))"
proof -
  from assms(1) have b: "buildable False work_units"
    and m: "model = hard_constraints upper_bound work_units
                      @ objective_of upper_bound False work_units"
    by (simp_all add: build_model_Inr)
  from b have ok: "list_all (\<lambda>(work_unit, due). tasks work_unit \<noteq> [])
                     (with_due_time work_units)"
    by (simp add: buildable_def)
  then have block: "objective_constraints (nj_tasks upper_bound (all_tasks_of work_units)) False
      work_units = Inr (map (deadline_constraint upper_bound) (with_due_time work_units))"
    by (simp add: objective_constraints_Inr objective_of_def)
  have each: "tasks wu \<noteq> []
             \<and> Lt (Add (Var (start_var upper_bound (last (tasks wu))))
                       (Const (duration (last (tasks wu))))) (Const due) \<in> set model
             \<and> (\<forall>a. satisfies a model \<longrightarrow> completion_time a upper_bound wu < due)"
    if "wu \<in> set work_units" "due_time wu = Some due" for wu due
  proof -
    from that have pair: "(wu, due) \<in> set (with_due_time work_units)"
      by (simp add: with_due_time_mem)
    with ok have ne: "tasks wu \<noteq> []" by (auto simp: list_all_iff)
    from pair have mem: "deadline_constraint upper_bound (wu, due) \<in> set model"
      using m by (simp add: objective_of_def)
    then have "\<forall>a. satisfies a model \<longrightarrow> holds a (deadline_constraint upper_bound (wu, due))"
      by (blast intro: satisfies_holds)
    with mem ne show ?thesis
      by (simp add: deadline_constraint_def end_expr_def completion_time_def)
  qed
  have plain: "C_max \<notin> vars_of c \<and> (\<forall>e. c \<noteq> Minimize e)"
    if "c \<in> set (map (deadline_constraint upper_bound) (with_due_time work_units))" for c
    using that by (auto simp: C_max_not_in_deadline) (simp add: deadline_constraint_def)
  have fails: "\<exists>e. numberjack_scheduler engine work_units upper_bound False lim meth st
                      = (Inl e, st)"
    if "sound engine" "\<not> feasible model" for engine :: engine and meth lim st
  proof (cases "engine meth lim model")
    case BackendFailure
    then show ?thesis using assms(1) by (simp add: numberjack_scheduler_cases)
  next
    case NoSolution
    then show ?thesis using assms(1) by (simp add: numberjack_scheduler_cases)
  next
    case (Solution a)
    with that(1) have "satisfies a model" by (auto simp: sound_def)
    with that(2) show ?thesis by (auto simp: feasible_def)
  qed
  from block each plain fails show ?thesis by blast
qed

theorem feasibility_deadlines_witness:
  "build_model 500 False [wuA, wuB]
     = Inr (hard_constraints 500 [wuA, wuB] @ objective_of 500 False [wuA, wuB])
   \<and> wuB \<in> set [wuA, wuB] \<and> due_time wuB = Some 20
   \<and> satisfies demo_schedule (hard_constraints 500 [wuA, wuB] @ objective_of 500 False [wuA, wuB])
   \<and> Lt (Add (Var (start_var 500 B1)) (Const 4)) (Const 20)
       \<in> set (hard_constraints 500 [wuA, wuB] @ objective_of 500 False [wuA, wuB])
   \<and> completion_time demo_schedule 500 wuB < 20
   \<and> build_model 500 False [overdue]
       = Inr (hard_constraints 500 [overdue] @ objective_of 500 False [overdue])
   \<and> sound refusing_engine
   \<and> \<not> feasible (hard_constraints 500 [overdue] @ objective_of 500 False [overdue])
   \<and> (\<exists>e. numberjack_scheduler refusing_engine [overdue] 500 False 5 ''Mistral'' Map.empty
             = (Inl e, Map.empty))"
proof -
  have mem: "wuB \<in> set [wuA, wuB]" and due: "due_time wuB = Some 20"
    by (simp_all add: wuB_def)
  have t: "last (tasks wuB) = B1" "duration B1 = 4"
    by (simp_all add: wuB_def B1_def)
  from feasibility_deadlines[OF demo_model[of False]] mem due
  have "Lt (Add (Var (start_var 500 (last (tasks wuB)))) (Const (duration (last (tasks wuB)))))
           (Const 20)
          \<in> set (hard_constraints 500 [wuA, wuB] @ objective_of 500 False [wuA, wuB])
        \<and> (\<forall>a. satisfies a (hard_constraints 500 [wuA, wuB] @ objective_of 500 False [wuA, wuB])
                \<longrightarrow> completion_time a 500 wuB < 20)"
    by blast
  with demo_satisfies[of False]
  have one: "Lt (Add (Var (start_var 500 B1)) (Const 4)) (Const 20)
       \<in> set (hard_constraints 500 [wuA, wuB] @ objective_of 500 False [wuA, wuB])
     \<and> completion_time demo_schedule 500 wuB < 20"
    by (simp add: t)
  from feasibility_deadlines[OF overdue_model] refusing_engine_sound overdue_infeasible
  have two: "\<exists>e. numberjack_scheduler refusing_engine [overdue] 500 False 5 ''Mistral'' Map.empty
             = (Inl e, Map.empty)"
    by blast
  from one two show ?thesis
    using demo_model[of False] mem due demo_satisfies[of False] overdue_model
      refusing_engine_sound overdue_infeasible
    by simp
qed

subsection \<open>C5\<close>

text \<open>Claim C5. When the engine reports no solution for the built model, the call raises the
  \<open>ValueError\<close> and the store of \<open>scheduled\<close> fields is unchanged; whatever the failure,
  the store is unchanged; and when the call returns normally it returns the work units,
  the engine has returned an assignment, and every task of \<open>all_tasks\<close> holds the triple of
  its start, its start plus its duration, and its resources paired with their slots,
  while no other entry of the store has changed.\<close>

theorem all_or_nothing:
  "(\<forall>model. build_model upper_bound optimize work_units = Inr model
        \<and> engine solver_method time_limit model = NoSolution \<longrightarrow>
      numberjack_scheduler engine work_units upper_bound optimize time_limit solver_method st
        = (Inl (ValueError ''No solution found by the schedule optimizer !''), st))
   \<and> (\<forall>e st'.
        numberjack_scheduler engine work_units upper_bound optimize time_limit solver_method st
          = (Inl e, st') \<longrightarrow> st' = st)
   \<and> (\<forall>r st'.
        numberjack_scheduler engine work_units upper_bound optimize time_limit solver_method st
          = (Inr r, st') \<longrightarrow>
        r = work_units
        \<and> (\<exists>model a. build_model upper_bound optimize work_units = Inr model
              \<and> engine solver_method time_limit model = Solution a
              \<and> (\<forall>task. task \<in> set (all_tasks_of work_units) \<longrightarrow>
                    st' task
                      = Some (a (start_var upper_bound task),
                              a (start_var upper_bound task) + duration task,
                              map (\<lambda>resource. (resource, a (slot_var task resource)))
                                (resources task)))
              \<and> (\<forall>task. task \<notin> set (all_tasks_of work_units) \<longrightarrow> st' task = st task)))"
  by (auto simp: numberjack_scheduler_cases no_solution_def scheduled_value_def
        split: sum.splits verdict.splits)

theorem all_or_nothing_witness:
  "build_model 500 True [wuA, wuB]
     = Inr (hard_constraints 500 [wuA, wuB] @ objective_of 500 True [wuA, wuB])
   \<and> refusing_engine ''Mistral'' 5
       (hard_constraints 500 [wuA, wuB] @ objective_of 500 True [wuA, wuB]) = NoSolution
   \<and> numberjack_scheduler refusing_engine [wuA, wuB] 500 True 5 ''Mistral'' Map.empty
       = (Inl (ValueError ''No solution found by the schedule optimizer !''), Map.empty)
   \<and> fst (numberjack_scheduler demo_engine [wuA, wuB] 500 True 5 ''Mistral'' Map.empty)
       = Inr [wuA, wuB]
   \<and> A1 \<in> set (all_tasks_of [wuA, wuB])
   \<and> snd (numberjack_scheduler demo_engine [wuA, wuB] 500 True 5 ''Mistral'' Map.empty) A1
       = Some (0, 3, [(R1, 1), (P2, 1)])"
proof -
  let ?m = "hard_constraints 500 [wuA, wuB] @ objective_of 500 True [wuA, wuB]"
  have no: "refusing_engine ''Mistral'' 5 ?m = NoSolution"
    by (simp add: refusing_engine_def)
  have fail: "numberjack_scheduler refusing_engine [wuA, wuB] 500 True 5 ''Mistral'' Map.empty
       = (Inl (ValueError ''No solution found by the schedule optimizer !''), Map.empty)"
    using all_or_nothing[of 500 True "[wuA, wuB]" refusing_engine "''Mistral''" 5 Map.empty]
      demo_model[of True] no by blast
  obtain r st' where res:
    "numberjack_scheduler demo_engine [wuA, wuB] 500 True 5 ''Mistral'' Map.empty = (Inr r, st')"
    by (simp add: numberjack_scheduler_cases demo_model demo_engine_def)
  have a1: "A1 \<in> set (all_tasks_of [wuA, wuB])" by (simp add: demo_tasks)
  from all_or_nothing[of 500 True "[wuA, wuB]" demo_engine "''Mistral''" 5 Map.empty] res
  obtain model a where r: "r = [wuA, wuB]"
    and e: "demo_engine ''Mistral'' 5 model = Solution a"
    and w: "\<forall>task. task \<in> set (all_tasks_of [wuA, wuB]) \<longrightarrow>
                    st' task
                      = Some (a (start_var 500 task), a (start_var 500 task) + duration task,
                              map (\<lambda>resource. (resource, a (slot_var task resource)))
                                (resources task))"
    by blast
  from e have a: "a = demo_schedule" by (simp add: demo_engine_def)
  from w a1 have "st' A1 = Some (scheduled_value a 500 A1)"
    by (simp add: scheduled_value_def)
  then have "st' A1 = Some (0, 3, [(R1, 1), (P2, 1)])"
    by (simp add: a demo_scheduled_A1)
  with fail no a1 r res show ?thesis using demo_model[of True] by simp
qed

subsection \<open>C6\<close>

text \<open>Claim C6. For every work unit and every two adjacent tasks of its task list, the model
  contains \<open>start(task) + duration(task) <= start(next_task)\<close>, and every satisfying
  assignment obeys it.\<close>

theorem intra_work_unit_chain:
  assumes "build_model upper_bound optimize work_units = Inr model"
    and "work_unit \<in> set work_units"
    and "Suc i < length (tasks work_unit)"
  shows "Le (Add (Var (start_var upper_bound (tasks work_unit ! i)))
                 (Const (duration (tasks work_unit ! i))))
            (Var (start_var upper_bound (tasks work_unit ! Suc i))) \<in> set model
       \<and> (\<forall>a. satisfies a model \<longrightarrow>
             a (start_var upper_bound (tasks work_unit ! i)) + duration (tasks work_unit ! i)
               \<le> a (start_var upper_bound (tasks work_unit ! Suc i)))"
proof -
  let ?t = "tasks work_unit ! i" and ?u = "tasks work_unit ! Suc i"
  have "(?t, ?u) \<in> set (adjacent_pairs work_units)"
    using assms(2,3) nth_adjacent[of i "tasks work_unit"] by (auto simp: adjacent_pairs_def)
  then have "precedes upper_bound ?t ?u \<in> set (hard_constraints upper_bound work_units)"
    by (rule chain_in_hard)
  with assms(1) have mem: "precedes upper_bound ?t ?u \<in> set model"
    by (simp add: build_model_Inr)
  then have "\<forall>a. satisfies a model \<longrightarrow> holds a (precedes upper_bound ?t ?u)"
    by (blast intro: satisfies_holds)
  with mem show ?thesis by (simp add: precedes_def)
qed

theorem intra_work_unit_chain_witness:
  "build_model 500 False [wuA, wuB]
     = Inr (hard_constraints 500 [wuA, wuB] @ objective_of 500 False [wuA, wuB])
   \<and> wuA \<in> set [wuA, wuB] \<and> Suc 0 < length (tasks wuA)
   \<and> satisfies demo_schedule (hard_constraints 500 [wuA, wuB] @ objective_of 500 False [wuA, wuB])
   \<and> Le (Add (Var (start_var 500 A1)) (Const 3)) (Var (start_var 500 A2))
       \<in> set (hard_constraints 500 [wuA, wuB] @ objective_of 500 False [wuA, wuB])
   \<and> demo_schedule (start_var 500 A1) + 3 \<le> demo_schedule (start_var 500 A2)"
proof -
  have len: "Suc 0 < length (tasks wuA)" and mem: "wuA \<in> set [wuA, wuB]"
    by (simp_all add: wuA_def)
  have t: "tasks wuA ! 0 = A1" "tasks wuA ! Suc 0 = A2" "duration A1 = 3"
    by (simp_all add: wuA_def A1_def)
  from intra_work_unit_chain[OF demo_model[of False] mem len] demo_satisfies[of False]
  show ?thesis using demo_model[of False] len by (simp add: t)
qed

subsection \<open>C7\<close>

text \<open>Claim C7. When the model is built, for every work unit of the input and every parent of
  it, both have tasks, the model contains
  \<open>start(last task of parent) + its duration <= start(first task of child)\<close>, and every
  satisfying assignment obeys it. The dependency block holds one constraint per
  (work unit, parent) pair, so several parents constrain the child together.\<close>

theorem cross_work_unit_dependency:
  assumes "build_model upper_bound optimize work_units = Inr model"
    and "child \<in> set work_units"
    and "parent \<in> set (parents child)"
  shows "tasks parent \<noteq> [] \<and> tasks child \<noteq> []
       \<and> dependency_constraints (nj_tasks upper_bound (all_tasks_of work_units)) work_units
           = Inr (map (dependency_constraint upper_bound) (dependency_pairs work_units))
       \<and> length (dependency_pairs work_units)
           = sum_list (map (\<lambda>work_unit. length (parents work_unit)) work_units)
       \<and> Le (Add (Var (start_var upper_bound (last (tasks parent))))
                 (Const (duration (last (tasks parent)))))
            (Var (start_var upper_bound (hd (tasks child)))) \<in> set model
       \<and> (\<forall>a. satisfies a model \<longrightarrow>
             a (start_var upper_bound (last (tasks parent))) + duration (last (tasks parent))
               \<le> a (start_var upper_bound (hd (tasks child))))"
proof -
  from assms(1) have b: "buildable optimize work_units"
    and m: "model = hard_constraints upper_bound work_units
                      @ objective_of upper_bound optimize work_units"
    by (simp_all add: build_model_Inr)
  have pair: "(child, parent) \<in> set (dependency_pairs work_units)"
    using assms(2,3) by (auto simp: dependency_pairs_def)
  from b have ok: "list_all (\<lambda>(work_unit, parent).
          tasks parent \<noteq> [] \<and> last (tasks parent) \<in> set (all_tasks_of work_units)
          \<and> tasks work_unit \<noteq> []) (dependency_pairs work_units)"
    by (simp add: buildable_def)
  with pair have ne: "tasks parent \<noteq> []" "tasks child \<noteq> []"
    by (auto simp: list_all_iff)
  have block: "dependency_constraints (nj_tasks upper_bound (all_tasks_of work_units)) work_units
           = Inr (map (dependency_constraint upper_bound) (dependency_pairs work_units))"
    using ok by (simp add: dependency_constraints_Inr)
  have len: "length (dependency_pairs work_units)
           = sum_list (map (\<lambda>work_unit. length (parents work_unit)) work_units)"
    by (simp add: dependency_pairs_def length_concat comp_def)
  have mem: "dependency_constraint upper_bound (child, parent) \<in> set model"
    using dependency_in_hard[OF pair] m by simp
  then have "\<forall>a. satisfies a model \<longrightarrow> holds a (dependency_constraint upper_bound (child, parent))"
    by (blast intro: satisfies_holds)
  with mem ne block len show ?thesis
    by (simp add: dependency_constraint_def end_expr_def)
qed

theorem cross_work_unit_dependency_witness:
  "build_model 500 True [wuA, wuB]
     = Inr (hard_constraints 500 [wuA, wuB] @ objective_of 500 True [wuA, wuB])
   \<and> wuB \<in> set [wuA, wuB] \<and> wuA \<in> set (parents wuB)
   \<and> satisfies demo_schedule (hard_constraints 500 [wuA, wuB] @ objective_of 500 True [wuA, wuB])
   \<and> Le (Add (Var (start_var 500 A2)) (Const 2)) (Var (start_var 500 B1))
       \<in> set (hard_constraints 500 [wuA, wuB] @ objective_of 500 True [wuA, wuB])
   \<and> demo_schedule (start_var 500 A2) + 2 \<le> demo_schedule (start_var 500 B1)"
proof -
  have mem: "wuB \<in> set [wuA, wuB]" and par: "wuA \<in> set (parents wuB)"
    by (simp_all add: wuB_def)
  have t: "last (tasks wuA) = A2" "hd (tasks wuB) = B1" "duration A2 = 2"
    by (simp_all add: wuA_def wuB_def A2_def)
  from cross_work_unit_dependency[OF demo_model[of True] mem par] demo_satisfies[of True]
  show ?thesis using demo_model[of True] mem par by (simp add: t)
qed

subsection \<open>C8\<close>

text \<open>Claim C8. The pin block holds one constraint per work unit whose \<open>scheduled_start\<close> is
  set, and none for the others: the start of the first task equals \<open>scheduled_start\<close>.
  It is in the model, and every satisfying assignment gives the first task exactly that
  start.\<close>

theorem fixed_start_pin:
  assumes "build_model upper_bound optimize work_units = Inr model"
  shows "pin_constraints (nj_tasks upper_bound (all_tasks_of work_units)) work_units
           = Inr (map (pin_constraint upper_bound) (with_scheduled_start work_units))
       \<and> (\<forall>work_unit s. ((work_unit, s) \<in> set (with_scheduled_start work_units))
             = (work_unit \<in> set work_units \<and> scheduled_start work_unit = Some s))
       \<and> (\<forall>work_unit s. work_unit \<in> set work_units \<and> scheduled_start work_unit = Some s \<longrightarrow>
             tasks work_unit \<noteq> []
             \<and> Eq (Var (start_var upper_bound (hd (tasks work_unit)))) (Const s) \<in> set model
             \<and> (\<forall>a. satisfies a model \<longrightarrow> a (start_var upper_bound (hd (tasks work_unit))) = s))"
proof -
  from assms(1) have b: "buildable optimize work_units"
    and m: "model = hard_constraints upper_bound work_units
                      @ objective_of upper_bound optimize work_units"
    by (simp_all add: build_model_Inr)
  from b have ok: "list_all (\<lambda>(work_unit, s). tasks work_unit \<noteq> [])
                     (with_scheduled_start work_units)"
    by (simp add: buildable_def)
  then have block: "pin_constraints (nj_tasks upper_bound (all_tasks_of work_units)) work_units
           = Inr (map (pin_constraint upper_bound) (with_scheduled_start work_units))"
    by (simp add: pin_constraints_Inr)
  have each: "tasks work_unit \<noteq> []
             \<and> Eq (Var (start_var upper_bound (hd (tasks work_unit)))) (Const s) \<in> set model
             \<and> (\<forall>a. satisfies a model \<longrightarrow> a (start_var upper_bound (hd (tasks work_unit))) = s)"
    if "work_unit \<in> set work_units" "scheduled_start work_unit = Some s" for work_unit s
  proof -
    from that have pair: "(work_unit, s) \<in> set (with_scheduled_start work_units)"
      by (simp add: with_scheduled_start_mem)
    with ok have ne: "tasks work_unit \<noteq> []" by (auto simp: list_all_iff)
    have mem: "pin_constraint upper_bound (work_unit, s) \<in> set model"
      using pin_in_hard[OF pair] m by simp
    then have "\<forall>a. satisfies a model \<longrightarrow> holds a (pin_constraint upper_bound (work_unit, s))"
      by (blast intro: satisfies_holds)
    with mem ne show ?thesis by (simp add: pin_constraint_def)
  qed
  from block each show ?thesis by (simp add: with_scheduled_start_mem)
qed

theorem fixed_start_pin_witness:
  "build_model 500 True [wuA, wuB]
     = Inr (hard_constraints 500 [wuA, wuB] @ objective_of 500 True [wuA, wuB])
   \<and> wuB \<in> set [wuA, wuB] \<and> scheduled_start wuB = Some 5 \<and> scheduled_start wuA = None
   \<and> with_scheduled_start [wuA, wuB] = [(wuB, 5)]
   \<and> satisfies demo_schedule (hard_constraints 500 [wuA, wuB] @ objective_of 500 True [wuA, wuB])
   \<and> Eq (Var (start_var 500 B1)) (Const 5)
       \<in> set (hard_constraints 500 [wuA, wuB] @ objective_of 500 True [wuA, wuB])
   \<and> demo_schedule (start_var 500 B1) = 5"
proof -
  have mem: "wuB \<in> set [wuA, wuB]" and s: "scheduled_start wuB = Some 5"
    and n: "scheduled_start wuA = None"
    by (simp_all add: wuA_def wuB_def)
  have t: "hd (tasks wuB) = B1" by (simp add: wuB_def)
  have w: "with_scheduled_start [wuA, wuB] = [(wuB, 5)]"
    by (simp add: with_scheduled_start_def s n)
  from fixed_start_pin[OF demo_model[of True]] mem s demo_satisfies[of True]
  have "Eq (Var (start_var 500 (hd (tasks wuB)))) (Const 5)
           \<in> set (hard_constraints 500 [wuA, wuB] @ objective_of 500 True [wuA, wuB])
        \<and> demo_schedule (start_var 500 (hd (tasks wuB))) = 5"
    by blast
  then show ?thesis using demo_model[of True] mem s n w demo_satisfies[of True] by (simp add: t)
qed

subsection \<open>C9\<close>

text \<open>Claim C9. \<open>nj_tasks\<close> has exactly one entry per task of the flattened task lists of
  the work units, the variable \<open>Task(upper_bound, task.duration)\<close>. It carries the task's
  duration, and a start \<open>x\<close> is in its domain exactly when \<open>0 <= x < upper_bound\<close>,
  whatever the duration. The domain is the one the spec gives a start-time decision; the
  library's constructor is not part of the sources.\<close>

theorem start_decisions:
  "all_tasks_of work_units = concat (map tasks work_units)
   \<and> dom (nj_tasks upper_bound (all_tasks_of work_units))
       = {task. \<exists>work_unit \<in> set work_units. task \<in> set (tasks work_unit)}
   \<and> (\<forall>work_unit task. work_unit \<in> set work_units \<and> task \<in> set (tasks work_unit) \<longrightarrow>
         nj_tasks upper_bound (all_tasks_of work_units) task
           = Some (Task (Start task) upper_bound (duration task))
         \<and> nj_duration (Task (Start task) upper_bound (duration task)) = duration task
         \<and> (\<forall>x. in_domain (Task (Start task) upper_bound (duration task)) x
                 = (0 \<le> x \<and> x < upper_bound)))"
proof -
  let ?d = "nj_tasks upper_bound (all_tasks_of work_units)"
  have flat: "all_tasks_of work_units = concat (map tasks work_units)"
    by (simp add: all_tasks_of_def)
  have keys: "dom ?d = {task. \<exists>work_unit \<in> set work_units. task \<in> set (tasks work_unit)}"
    by (auto simp: nj_tasks_lookup dom_def all_tasks_of_def)
  have entry: "?d task = Some (Task (Start task) upper_bound (duration task))"
    if "work_unit \<in> set work_units" "task \<in> set (tasks work_unit)" for work_unit task
    using task_of_work_unit[OF that] by (simp add: nj_tasks_lookup start_var_def)
  have range: "in_domain (Task (Start task) upper_bound (duration task)) x
                 = (0 \<le> x \<and> x < upper_bound)" for task x
    by simp
  have tag: "nj_duration (Task (Start task) upper_bound (duration task)) = duration task"
    for task
    by simp
  from flat keys entry range tag show ?thesis by blast
qed

theorem start_decisions_witness:
  "wuA \<in> set [wuA, wuB] \<and> A1 \<in> set (tasks wuA) \<and> duration A1 = 3
   \<and> nj_tasks 500 (all_tasks_of [wuA, wuB]) A1 = Some (Task (Start A1) 500 3)
   \<and> nj_duration (Task (Start A1) 500 3) = 3
   \<and> in_domain (Task (Start A1) 500 3) 0
   \<and> in_domain (Task (Start A1) 500 3) 499
   \<and> \<not> in_domain (Task (Start A1) 500 3) 500"
proof -
  have w: "wuA \<in> set [wuA, wuB]" "A1 \<in> set (tasks wuA)" by (simp_all add: wuA_def)
  have d: "duration A1 = 3" by (simp add: A1_def)
  from start_decisions[of "[wuA, wuB]" 500] w
  have "nj_tasks 500 (all_tasks_of [wuA, wuB]) A1 = Some (Task (Start A1) 500 (duration A1))
        \<and> nj_duration (Task (Start A1) 500 (duration A1)) = duration A1
        \<and> (\<forall>x. in_domain (Task (Start A1) 500 (duration A1)) x = (0 \<le> x \<and> x < 500))"
    by blast
  with w d show ?thesis by simp
qed

subsection \<open>C10\<close>

text \<open>Claim C10, on a failing input. In optimize mode no deadline constraint is added and a
  late schedule is returned: for the work unit \<open>late\<close> (a task of 10, due at 5) the model
  is the surrogate constraint and \<open>Minimize(C_max)\<close>, and the call returns normally with
  the task ending at 10. But the surrogate is capped at 1500000. For the work unit
  \<open>urgent\<close> (a task of 200, due at 5, priority 10) the model is again only the surrogate
  constraint and \<open>Minimize(C_max)\<close>, it has no satisfying assignment, and the call with an
  engine that returns only satisfying assignments raises the \<open>ValueError\<close>; the same
  work unit without a due time has a feasible model and is scheduled.\<close>

theorem optimize_cap_failure:
  "tasks late = [late_task] \<and> duration late_task = 10 \<and> due_time late = Some 5
   \<and> build_model 500 True [late]
       = Inr [Gt (Var C_max) (surrogate_bound 500 [late]), Minimize (Var C_max)]
   \<and> fst (numberjack_scheduler honest_engine [late] 500 True 5 ''Mistral'' Map.empty)
       = Inr [late]
   \<and> snd (numberjack_scheduler honest_engine [late] 500 True 5 ''Mistral'' Map.empty) late_task
       = Some (0, 10, [])
   \<and> tasks urgent = [urgent_task] \<and> duration urgent_task = 200
   \<and> due_time urgent = Some 5 \<and> priority urgent = 10
   \<and> build_model 500 True [urgent]
       = Inr [Gt (Var C_max) (surrogate_bound 500 [urgent]), Minimize (Var C_max)]
   \<and> \<not> feasible [Gt (Var C_max) (surrogate_bound 500 [urgent]), Minimize (Var C_max)]
   \<and> numberjack_scheduler honest_engine [urgent] 500 True 5 ''Mistral'' Map.empty
       = (Inl (ValueError ''No solution found by the schedule optimizer !''), Map.empty)
   \<and> relaxed = WorkUnit (name urgent) (tasks urgent) (constraints urgent) (parents urgent)
                 None (priority urgent) (scheduled_start urgent)
   \<and> build_model 500 True [relaxed]
       = Inr [Gt (Var C_max) (surrogate_bound 500 [relaxed]), Minimize (Var C_max)]
   \<and> feasible [Gt (Var C_max) (surrogate_bound 500 [relaxed]), Minimize (Var C_max)]
   \<and> fst (numberjack_scheduler honest_engine [relaxed] 500 True 5 ''Mistral'' Map.empty)
       = Inr [relaxed]"
proof -
  have l: "tasks late = [late_task] \<and> duration late_task = 10 \<and> due_time late = Some 5"
    by (simp add: late_def late_task_def)
  have u: "tasks urgent = [urgent_task] \<and> duration urgent_task = 200
           \<and> due_time urgent = Some 5 \<and> priority urgent = 10"
    by (simp add: urgent_def urgent_task_def)
  have r: "relaxed = WorkUnit (name urgent) (tasks urgent) (constraints urgent) (parents urgent)
                 None (priority urgent) (scheduled_start urgent)"
    by (simp add: relaxed_def urgent_def)
  have ml: "build_model 500 True [late]
       = Inr [Gt (Var C_max) (surrogate_bound 500 [late]), Minimize (Var C_max)]"
    using late_model by (simp add: late_hard objective_of_def)
  have mu: "build_model 500 True [urgent]
       = Inr [Gt (Var C_max) (surrogate_bound 500 [urgent]), Minimize (Var C_max)]"
    using urgent_model by (simp add: urgent_hard objective_of_def)
  have mr: "build_model 500 True [relaxed]
       = Inr [Gt (Var C_max) (surrogate_bound 500 [relaxed]), Minimize (Var C_max)]"
    using relaxed_model by (simp add: relaxed_hard objective_of_def)
  have sl: "satisfies late_schedule [Gt (Var C_max) (surrogate_bound 500 [late]),
                                     Minimize (Var C_max)]"
    using late_satisfies by (simp add: late_hard objective_of_def)
  have nu: "\<not> feasible [Gt (Var C_max) (surrogate_bound 500 [urgent]), Minimize (Var C_max)]"
    using urgent_infeasible by (simp add: urgent_hard objective_of_def)
  have sr: "satisfies late_schedule [Gt (Var C_max) (surrogate_bound 500 [relaxed]),
                                     Minimize (Var C_max)]"
    using relaxed_satisfies by (simp add: relaxed_hard objective_of_def)
  have fr: "feasible [Gt (Var C_max) (surrogate_bound 500 [relaxed]), Minimize (Var C_max)]"
    using sr by (auto simp: feasible_def)
  have cl: "numberjack_scheduler honest_engine [late] 500 True 5 ''Mistral'' Map.empty
              = (Inr [late], \<lambda>t. if t \<in> set (all_tasks_of [late])
                                  then Some (scheduled_value late_schedule 500 t) else None)"
    by (simp add: numberjack_scheduler_cases ml honest_engine_def sl)
  have vl: "scheduled_value late_schedule 500 late_task = (0, 10, [])"
    by (simp add: scheduled_value_def start_var_def late_task_def)
  have tl: "late_task \<in> set (all_tasks_of [late])" by (simp add: all_tasks_of_def late_def)
  have cu: "numberjack_scheduler honest_engine [urgent] 500 True 5 ''Mistral'' Map.empty
       = (Inl (ValueError ''No solution found by the schedule optimizer !''), Map.empty)"
    using nu by (auto simp: numberjack_scheduler_cases mu honest_engine_def feasible_def
                   no_solution_def)
  have cr: "fst (numberjack_scheduler honest_engine [relaxed] 500 True 5 ''Mistral'' Map.empty)
       = Inr [relaxed]"
    by (simp add: numberjack_scheduler_cases mr honest_engine_def sr)
  from cl tl vl have "fst (numberjack_scheduler honest_engine [late] 500 True 5 ''Mistral''
                             Map.empty) = Inr [late]"
    and "snd (numberjack_scheduler honest_engine [late] 500 True 5 ''Mistral'' Map.empty)
           late_task = Some (0, 10, [])"
    by simp_all
  with l u r ml mu mr nu fr cu cr show ?thesis by simp
qed


end
